theory Spec2Isabelle
  imports Main "HOL-Library.Word"
begin

section \<open>Python values\<close>

text \<open>
  A Python \<open>str\<close> is a sequence of Unicode code points, so a string is a list of code
  points here; \<open>ascii\<close> turns an ASCII literal into that form.  Code points are needed
  because \<open>str.strip\<close> removes Unicode white space and because one of the placeholder
  literals of the analyzer is Cyrillic.
\<close>

type_synonym pystr = "nat list"

type_synonym pyfloat = "64 word"

definition ascii :: "string \<Rightarrow> pystr" where
  "ascii s = map of_char s"

text \<open>The values that \<open>json.loads\<close> can return; a dict is kept as an association list.\<close>

datatype pyval =
    PyNone
  | PyBool bool
  | PyInt int
  | PyFloat pyfloat
  | PyStr pystr
  | PyList "pyval list"
  | PyDict "(pystr \<times> pyval) list"

text \<open>An exception object is represented by what \<open>str(e)\<close> yields.\<close>

datatype exn = Exn pystr

fun str_exn :: "exn \<Rightarrow> pystr" where
  "str_exn (Exn m) = m"

text \<open>\<open>str(n)\<close> for a non-negative integer: its decimal digits.\<close>

fun py_str :: "nat \<Rightarrow> pystr" where
  "py_str n = (if n < 10 then [48 + n] else py_str (n div 10) @ [48 + n mod 10])"

text \<open>\<open>str.isspace\<close> on one code point, and \<open>str.strip()\<close> without arguments.\<close>

definition py_isspace :: "nat \<Rightarrow> bool" where
  "py_isspace c \<longleftrightarrow>
     (9 \<le> c \<and> c \<le> 13) \<or> (28 \<le> c \<and> c \<le> 32) \<or> c = 133 \<or> c = 160 \<or> c = 5760 \<or>
     (8192 \<le> c \<and> c \<le> 8202) \<or> c = 8232 \<or> c = 8233 \<or> c = 8239 \<or> c = 8287 \<or> c = 12288"

definition py_strip :: "pystr \<Rightarrow> pystr" where
  "py_strip s = rev (dropWhile py_isspace (rev (dropWhile py_isspace s)))"

text \<open>
  \<open>s.find(c)\<close> and \<open>s.rfind(c)\<close> for a needle of one character: the index of the first
  (last) occurrence, or \<open>-1\<close>.
\<close>

primrec py_find :: "nat \<Rightarrow> pystr \<Rightarrow> int" where
  "py_find c [] = - 1"
| "py_find c (x # xs) =
     (if x = c then 0 else (let r = py_find c xs in if r = - 1 then - 1 else r + 1))"

definition py_rfind :: "nat \<Rightarrow> pystr \<Rightarrow> int" where
  "py_rfind c s =
     (let r = py_find c (rev s) in if r = - 1 then - 1 else int (length s) - 1 - r)"

text \<open>The slice \<open>s[i:j]\<close>: a negative bound counts from the end, and bounds are clamped.\<close>

definition py_bound :: "pystr \<Rightarrow> int \<Rightarrow> nat" where
  "py_bound s k =
     (let n = int (length s) in nat (if k < 0 then max (k + n) 0 else min k n))"

definition py_slice :: "pystr \<Rightarrow> int \<Rightarrow> int \<Rightarrow> pystr" where
  "py_slice s i j = take (py_bound s j - py_bound s i) (drop (py_bound s i) s)"

text \<open>\<open>sep.join(xs)\<close>, \<open>s.startswith(p)\<close> and \<open>d.get(k, default)\<close>.\<close>

fun py_join :: "pystr \<Rightarrow> pystr list \<Rightarrow> pystr" where
  "py_join sep [] = []"
| "py_join sep [x] = x"
| "py_join sep (x # y # ys) = x @ sep @ py_join sep (y # ys)"

definition py_startswith :: "pystr \<Rightarrow> pystr \<Rightarrow> bool" where
  "py_startswith s p \<longleftrightarrow> take (length p) s = p"

definition dict_get :: "(pystr \<times> pyval) list \<Rightarrow> pystr \<Rightarrow> pyval \<Rightarrow> pyval" where
  "dict_get d k dflt = (case map_of d k of Some v \<Rightarrow> v | None \<Rightarrow> dflt)"

text \<open>The name Python prints for the type of a value, as it appears in an AttributeError.\<close>

fun type_name :: "pyval \<Rightarrow> pystr" where
  "type_name PyNone = ascii ''NoneType''"
| "type_name (PyBool b) = ascii ''bool''"
| "type_name (PyInt i) = ascii ''int''"
| "type_name (PyFloat f) = ascii ''float''"
| "type_name (PyStr s) = ascii ''str''"
| "type_name (PyList xs) = ascii ''list''"
| "type_name (PyDict d) = ascii ''dict''"

section \<open>Configuration (config.py)\<close>

record settings =
  QDRANT_COLLECTION_V1_PREFIX :: pystr
  QDRANT_COLLECTION_V2_PREFIX :: pystr
  DEFAULT_DOC_PREFIX :: pystr
  DEFAULT_COMMENT_PREFIX :: pystr

definition default_settings :: settings where
  "default_settings =
     \<lparr> QDRANT_COLLECTION_V1_PREFIX = ascii ''doc_v1_'',
       QDRANT_COLLECTION_V2_PREFIX = ascii ''doc_v2_'',
       DEFAULT_DOC_PREFIX = ascii ''search_document: '',
       DEFAULT_COMMENT_PREFIX = ascii ''search_query: '' \<rparr>"

section \<open>Records passed between the stages\<close>

text \<open>
  The dictionaries of the source become records.  A comment and an analysis result share
  the keys \<open>comment_id\<close> and \<open>comment_text\<close>.  The key \<open>embedding\<close> of a comment is absent
  until \<open>process_comments\<close> stores it, hence optional.  The five fields that
  \<open>analyze_comment\<close> copies out of the parsed JSON hold whatever JSON value was there.
\<close>

record entry =
  comment_id :: pystr
  comment_text :: pystr

record comment = entry +
  embedding :: "pyfloat list option"

record analysis_result = entry +
  explanation :: pyval
  evidence_v1 :: pyval
  evidence_v2 :: pyval
  suggestion :: pyval
  status :: pyval

record chunk =
  chunk_text :: pystr
  chunk_embedding :: "pyfloat list"
  chunk_index :: nat

record document =
  original_text :: pystr
  chunks :: "chunk list"

text \<open>A search hit; \<open>payload_text\<close> is \<open>hit.payload['text']\<close>.\<close>

record hit =
  payload_text :: pystr

text \<open>
  The prompt is one fixed instruction text with three interpolated values; it is
  represented by those three values.
\<close>

record prompt =
  prompt_comment_text :: pystr
  prompt_v1_text :: pystr
  prompt_v2_text :: pystr

text \<open>
  The entry \<open>results_store[task_id]\<close>, with the keys that \<open>process_documents\<close> writes.
\<close>

record task =
  task_status :: pystr
  progress :: pystr
  comment_progress :: "pystr option"
  task_result :: "analysis_result list option"
  results_path :: "pystr option"
  task_error :: "pystr option"
  completed_at :: "pystr option"

section \<open>The environment of a task\<close>

text \<open>
  Calls on the vector store are recorded in the order they are issued.
\<close>

datatype vs_call =
    Recreate pystr
  | Upsert pystr "chunk list"
  | Search pystr "pyfloat list" nat

text \<open>
  What the four source files call but do not define is a parameter.  The services
  (vector store, completion service, embedding model, result file, clock) act on an opaque world
  \<open>'w\<close>: a call may raise and may change the world, so the same call can answer
  differently later.  \<open>json.loads\<close> and the text splitter are functions of their argument.
  \<open>load_document_text\<close> and \<open>read_lines\<close> stand for the file reads: \<open>None\<close> is a file
  that is missing, unsupported or unreadable, and \<open>read_lines\<close> yields the lines of the
  comments file as the file iterator delivers them.
\<close>

record 'w env =
  settings :: settings
  json_loads :: "pystr \<Rightarrow> exn + pyval"
  get_completion :: "prompt \<Rightarrow> 'w \<Rightarrow> (exn + pystr option) \<times> 'w"
  search :: "pystr \<Rightarrow> pyfloat list \<Rightarrow> nat \<Rightarrow> 'w \<Rightarrow> (exn + hit list) \<times> 'w"
  recreate_collection :: "pystr \<Rightarrow> 'w \<Rightarrow> (exn + unit) \<times> 'w"
  upsert_chunks :: "pystr \<Rightarrow> chunk list \<Rightarrow> 'w \<Rightarrow> (exn + unit) \<times> 'w"
  encode :: "pystr list \<Rightarrow> pystr \<Rightarrow> 'w \<Rightarrow> (exn + pyfloat list list) \<times> 'w"
  split_text :: "pystr \<Rightarrow> pystr list"
  load_document_text :: "pystr \<Rightarrow> pystr option"
  read_lines :: "pystr \<Rightarrow> pystr list option"
  write_results :: "pystr \<Rightarrow> analysis_result list \<Rightarrow> 'w \<Rightarrow> (exn + unit) \<times> 'w"
  now :: "'w \<Rightarrow> pystr"

record 'w state =
  world :: 'w
  vs_calls :: "vs_call list"
  task :: task

text \<open>
  A statement sequence that may raise: it maps the state to an exception or a value,
  and to the state reached.
\<close>

type_synonym ('w, 'a) prog = "'w state \<Rightarrow> (exn + 'a) \<times> 'w state"

definition returns :: "'a \<Rightarrow> ('w, 'a) prog" where
  "returns x s = (Inr x, s)"

definition raises :: "exn \<Rightarrow> ('w, 'a) prog" where
  "raises e s = (Inl e, s)"

definition pbind :: "('w, 'a) prog \<Rightarrow> ('a \<Rightarrow> ('w, 'b) prog) \<Rightarrow> ('w, 'b) prog" where
  "pbind m f s = (case m s of (Inl e, s') \<Rightarrow> (Inl e, s') | (Inr x, s') \<Rightarrow> f x s')"

definition external :: "('w \<Rightarrow> (exn + 'a) \<times> 'w) \<Rightarrow> ('w, 'a) prog" where
  "external f s = (case f (world s) of (r, w') \<Rightarrow> (r, s\<lparr>world := w'\<rparr>))"

definition log_call :: "vs_call \<Rightarrow> ('w, unit) prog" where
  "log_call c s = (Inr (), s\<lparr>vs_calls := vs_calls s @ [c]\<rparr>)"

definition update_task :: "(task \<Rightarrow> task) \<Rightarrow> ('w, unit) prog" where
  "update_task f s = (Inr (), s\<lparr>task := f (task s)\<rparr>)"

section \<open>comment\_analyzer.py\<close>

definition top_k :: nat where
  "top_k = 10"

definition lbrace :: nat where
  "lbrace = 123"

definition rbrace :: nat where
  "rbrace = 125"

text \<open>The literal \<open>"ne uchten"\<close> (not addressed), written in Cyrillic in the source.\<close>

definition status_not_addressed :: pystr where
  "status_not_addressed = [1085, 1077, 32, 1091, 1095, 1090, 1077, 1085]"

text \<open>The three verdict literals that the prompt allows for \<open>status\<close>.\<close>

definition verdict_literals :: "pystr set" where
  "verdict_literals =
     { [1091, 1095, 1090, 1077, 1085],
       [1085, 1077, 32, 1091, 1095, 1090, 1077, 1085],
       [1095, 1072, 1089, 1090, 1080, 1095, 1085, 1086, 32, 1091, 1095, 1090, 1077, 1085] }"

text \<open>\<open>_create_error_result\<close>; an exception object is truthy, \<open>None\<close> is not.\<close>

definition create_error_result :: "comment \<Rightarrow> exn option \<Rightarrow> pystr \<Rightarrow> analysis_result" where
  "create_error_result comment error json_text =
     (let error_message =
        (case error of
           Some e \<Rightarrow> ascii ''Error analyzing comment: '' @ str_exn e
         | None \<Rightarrow> ascii ''Error analyzing comment (Unknown)'')
      in \<lparr> comment_id = comment_id comment,
           comment_text = comment_text comment,
           explanation = PyStr error_message,
           evidence_v1 = PyStr json_text,
           evidence_v2 = PyStr [],
           suggestion = PyStr [],
           status = PyStr (ascii ''error'') \<rparr>)"

text \<open>Lines 81 to 86 of \<open>analyze_comment\<close>: the text handed to \<open>json.loads\<close>.\<close>

definition extract_json_text :: "pystr \<Rightarrow> pystr" where
  "extract_json_text llm_response =
     (let json_text = py_strip llm_response;
          first_brace = py_find lbrace json_text;
          last_brace = py_rfind rbrace json_text
      in if first_brace \<noteq> - 1 \<and> last_brace \<noteq> - 1
         then py_slice json_text first_brace (last_brace + 1)
         else json_text)"

text \<open>
  The candidate as the specification words it (section 4.4, step b): the substring of
  the raw output from the first opening brace to the last closing brace, inclusive.
\<close>

definition brace_substring :: "pystr \<Rightarrow> pystr" where
  "brace_substring raw =
     rev (dropWhile (\<lambda>x. x \<noteq> rbrace) (rev (dropWhile (\<lambda>x. x \<noteq> lbrace) raw)))"

text \<open>\<open>result.get\<close> on a value that is not a dict raises AttributeError.\<close>

definition attribute_error :: "pyval \<Rightarrow> exn" where
  "attribute_error v =
     Exn ([39] @ type_name v @ [39] @ ascii '' object has no attribute '' @ [39] @ ascii ''get'' @ [39])"

text \<open>
  Lines 74 to 105 of \<open>analyze_comment\<close>: from the completion response to the returned
  dictionary.  A response is falsy when it is \<open>None\<close> or the empty string.
\<close>

definition parse_llm_response ::
  "(pystr \<Rightarrow> exn + pyval) \<Rightarrow> comment \<Rightarrow> pystr option \<Rightarrow> analysis_result" where
  "parse_llm_response loads comment llm_response =
     (case llm_response of
        None \<Rightarrow> create_error_result comment None []
      | Some r \<Rightarrow>
          if r = [] then create_error_result comment None []
          else
            (let json_text = extract_json_text r in
             case loads json_text of
               Inl e \<Rightarrow> create_error_result comment (Some e) json_text
             | Inr (PyDict d) \<Rightarrow>
                 \<lparr> comment_id = comment_id comment,
                   comment_text = comment_text comment,
                   explanation = dict_get d (ascii ''explanation'') (PyStr (ascii ''No explanation provided'')),
                   evidence_v1 = dict_get d (ascii ''evidence_v1'') (PyStr (ascii ''No evidence provided'')),
                   evidence_v2 = dict_get d (ascii ''evidence_v2'') (PyStr (ascii ''No evidence provided'')),
                   suggestion = dict_get d (ascii ''suggestion'') (PyStr []),
                   status = dict_get d (ascii ''status'') (PyStr status_not_addressed) \<rparr>
             | Inr v \<Rightarrow> create_error_result comment (Some (attribute_error v)) json_text))"

text \<open>The evidence text of one version: the hits, labelled with their rank.\<close>

definition evidence_text :: "hit list \<Rightarrow> pystr" where
  "evidence_text results =
     py_join [10, 10]
       (map (\<lambda>(i, h). ascii ''Chunk '' @ py_str (i + 1) @ [58, 10] @ payload_text h)
            (enumerate 0 results))"

definition vs_search :: "'w env \<Rightarrow> pystr \<Rightarrow> pyfloat list \<Rightarrow> nat \<Rightarrow> ('w, hit list) prog" where
  "vs_search env name vec k =
     pbind (log_call (Search name vec k)) (\<lambda>_. external (search env name vec k))"

text \<open>\<open>comment["embedding"]\<close> raises KeyError when the key is absent.\<close>

definition comment_embedding :: "comment \<Rightarrow> ('w, pyfloat list) prog" where
  "comment_embedding comment =
     (case embedding comment of
        None \<Rightarrow> raises (Exn ([39] @ ascii ''embedding'' @ [39]))
      | Some v \<Rightarrow> returns v)"

text \<open>
  Lines 17 to 73 of \<open>analyze_comment\<close>: both searches, the prompt and the call of the
  completion service.  An exception of a collaborator leaves the function here.
\<close>

definition request_completion :: "'w env \<Rightarrow> comment \<Rightarrow> pystr \<Rightarrow> ('w, pystr option) prog" where
  "request_completion env comment doc_base_name =
     (let v1_collection = QDRANT_COLLECTION_V1_PREFIX (settings env) @ doc_base_name;
          v2_collection = QDRANT_COLLECTION_V2_PREFIX (settings env) @ doc_base_name
      in pbind (comment_embedding comment) (\<lambda>vec.
         pbind (vs_search env v1_collection vec top_k) (\<lambda>v1_results.
         pbind (vs_search env v2_collection vec top_k) (\<lambda>v2_results.
         let v1_text = evidence_text v1_results;
             v2_text = evidence_text v2_results;
             prompt = \<lparr> prompt_comment_text = comment_text comment,
                        prompt_v1_text = v1_text,
                        prompt_v2_text = v2_text \<rparr>
         in external (get_completion env prompt)))))"

definition analyze_comment :: "'w env \<Rightarrow> comment \<Rightarrow> pystr \<Rightarrow> ('w, analysis_result) prog" where
  "analyze_comment env comment doc_base_name =
     pbind (request_completion env comment doc_base_name) (\<lambda>llm_response.
       returns (parse_llm_response (json_loads env) comment llm_response))"

section \<open>document\_processor.py\<close>

text \<open>
  The loop of \<open>load_comments\<close>: \<open>i\<close> is the counter of \<open>enumerate\<close>, \<open>comments\<close> the list
  built so far.
\<close>

fun load_comments_loop :: "nat \<Rightarrow> pystr list \<Rightarrow> comment list \<Rightarrow> comment list" where
  "load_comments_loop i [] comments = comments"
| "load_comments_loop i (line # rest) comments =
     (let text = py_strip line
      in load_comments_loop (i + 1) rest
           (if text \<noteq> []
            then comments @ [\<lparr> comment_id = [67] @ py_str (i + 1), comment_text = text, embedding = None \<rparr>]
            else comments))"

definition load_comments :: "'w env \<Rightarrow> pystr \<Rightarrow> comment list option" where
  "load_comments env file_path =
     (case read_lines env file_path of
        None \<Rightarrow> None
      | Some lines \<Rightarrow> Some (load_comments_loop 0 lines []))"

text \<open>\<open>try: body except Exception as e: handler\<close>.\<close>

definition pcatch :: "('w, 'a) prog \<Rightarrow> (exn \<Rightarrow> ('w, 'a) prog) \<Rightarrow> ('w, 'a) prog" where
  "pcatch m h s = (case m s of (Inl e, s') \<Rightarrow> h e s' | (Inr x, s') \<Rightarrow> (Inr x, s'))"

text \<open>
  The loop \<open>for comment, embedding in zip(comments, embeddings)\<close> of \<open>process_comments\<close>:
  it stops with the shorter of the two lists.
\<close>

fun attach_embeddings :: "comment list \<Rightarrow> pyfloat list list \<Rightarrow> comment list" where
  "attach_embeddings (c # cs) (v # vs) = c\<lparr>embedding := Some v\<rparr> # attach_embeddings cs vs"
| "attach_embeddings cs [] = cs"
| "attach_embeddings [] vs = []"

definition process_comments :: "'w env \<Rightarrow> pystr \<Rightarrow> ('w, comment list option) prog" where
  "process_comments env file_path =
     (case load_comments env file_path of
        None \<Rightarrow> returns None
      | Some comments \<Rightarrow>
          if comments = [] then returns (Some [])
          else
            (let texts = map comment_text comments
             in pcatch
                  (pbind (external (encode env texts (DEFAULT_COMMENT_PREFIX (settings env))))
                     (\<lambda>embeddings. returns (Some (attach_embeddings comments embeddings))))
                  (\<lambda>e. returns None)))"

definition process_document :: "'w env \<Rightarrow> pystr \<Rightarrow> ('w, document option) prog" where
  "process_document env file_path =
     (case load_document_text env file_path of
        None \<Rightarrow> returns None
      | Some text \<Rightarrow>
          if text = [] then returns None
          else
            (let chunks = split_text env text
             in if chunks = [] then returns (Some \<lparr> original_text = text, chunks = [] \<rparr>)
                else pcatch
                  (pbind (external (encode env chunks (DEFAULT_DOC_PREFIX (settings env))))
                     (\<lambda>embeddings. returns (Some
                        \<lparr> original_text = text,
                          chunks = map (\<lambda>(i, chunk_text, emb).
                                     \<lparr> chunk_text = chunk_text, chunk_embedding = emb, chunk_index = i \<rparr>)
                                   (enumerate 0 (zip chunks embeddings)) \<rparr>)))
                  (\<lambda>e. returns None)))"

section \<open>main.py\<close>

text \<open>
  \<open>if not processed or not processed.get("chunks"): raise Exception(...)\<close>, yielding the
  chunk list that the later stage reads.
\<close>

definition checked_chunks :: "document option \<Rightarrow> exn \<Rightarrow> ('w, chunk list) prog" where
  "checked_chunks processed e =
     (case processed of
        None \<Rightarrow> raises e
      | Some d \<Rightarrow> if chunks d = [] then raises e else returns (chunks d))"

text \<open>\<open>if not processed_comments: raise Exception(...)\<close>.\<close>

definition checked_comments :: "comment list option \<Rightarrow> exn \<Rightarrow> ('w, comment list) prog" where
  "checked_comments processed e =
     (case processed of
        None \<Rightarrow> raises e
      | Some cs \<Rightarrow> if cs = [] then raises e else returns cs)"

text \<open>
  One round of the loop over the two prefixes that cleans the base name;
  \<open>clean_base_name[len(prefix):]\<close> drops the first \<open>len(prefix)\<close> characters.
\<close>

definition remove_prefix :: "pystr \<Rightarrow> pystr \<Rightarrow> pystr" where
  "remove_prefix clean_base_name prefix =
     (if py_startswith clean_base_name prefix
      then drop (length prefix) clean_base_name
      else clean_base_name)"

definition clean_base_name :: "settings \<Rightarrow> pystr \<Rightarrow> pystr" where
  "clean_base_name cfg doc_base_name =
     foldl remove_prefix doc_base_name
       [QDRANT_COLLECTION_V1_PREFIX cfg, QDRANT_COLLECTION_V2_PREFIX cfg]"

definition v1_collection :: "settings \<Rightarrow> pystr \<Rightarrow> pystr \<Rightarrow> pystr" where
  "v1_collection cfg doc_base_name task_id =
     QDRANT_COLLECTION_V1_PREFIX cfg @ clean_base_name cfg doc_base_name @ [45] @ task_id"

definition v2_collection :: "settings \<Rightarrow> pystr \<Rightarrow> pystr \<Rightarrow> pystr" where
  "v2_collection cfg doc_base_name task_id =
     QDRANT_COLLECTION_V2_PREFIX cfg @ clean_base_name cfg doc_base_name @ [45] @ task_id"

definition analysis_base_name :: "settings \<Rightarrow> pystr \<Rightarrow> pystr \<Rightarrow> pystr" where
  "analysis_base_name cfg doc_base_name task_id =
     clean_base_name cfg doc_base_name @ [45] @ task_id"

definition vs_recreate :: "'w env \<Rightarrow> pystr \<Rightarrow> ('w, unit) prog" where
  "vs_recreate env name =
     pbind (log_call (Recreate name)) (\<lambda>_. external (recreate_collection env name))"

definition vs_upsert :: "'w env \<Rightarrow> pystr \<Rightarrow> chunk list \<Rightarrow> ('w, unit) prog" where
  "vs_upsert env name cs =
     pbind (log_call (Upsert name cs)) (\<lambda>_. external (upsert_chunks env name cs))"

definition set_progress :: "pystr \<Rightarrow> ('w, unit) prog" where
  "set_progress stage = update_task (\<lambda>t. t\<lparr>progress := stage\<rparr>)"

definition current_time :: "'w env \<Rightarrow> ('w, pystr) prog" where
  "current_time env s = (Inr (now env (world s)), s)"

text \<open>
  The loop over the comments: \<open>i\<close> is the counter of \<open>enumerate\<close>, \<open>results\<close> the list
  built so far.
\<close>

fun analyze_loop ::
  "'w env \<Rightarrow> pystr \<Rightarrow> nat \<Rightarrow> nat \<Rightarrow> comment list \<Rightarrow> analysis_result list \<Rightarrow>
   ('w, analysis_result list) prog" where
  "analyze_loop env base total_comments i [] results = returns results"
| "analyze_loop env base total_comments i (comment # rest) results =
     pbind (update_task (\<lambda>t. t\<lparr>comment_progress := Some (py_str (i + 1) @ [47] @ py_str total_comments)\<rparr>))
       (\<lambda>_. pbind (analyze_comment env comment base)
         (\<lambda>r. analyze_loop env base total_comments (i + 1) rest (results @ [r])))"

text \<open>
  The body of the \<open>try\<close> statement of \<open>process_documents\<close>, stage by stage.  The
  log messages and the \<open>await asyncio.sleep(0)\<close> after each progress update change
  neither the task entry nor the vector store and are left out.
  Lines 541 to 557: both documents are processed; the stage yields their chunk lists.
\<close>

definition documents_stage ::
  "'w env \<Rightarrow> pystr \<Rightarrow> pystr \<Rightarrow> ('w, chunk list \<times> chunk list) prog" where
  "documents_stage env doc_v1_path doc_v2_path =
     pbind (set_progress (ascii ''processing_v1'')) (\<lambda>_.
     pbind (process_document env doc_v1_path) (\<lambda>processed_v1.
     pbind (checked_chunks processed_v1
              (Exn (ascii ''Failed to process document v1 or no text extracted: '' @ doc_v1_path)))
       (\<lambda>chunks_v1.
     pbind (set_progress (ascii ''processing_v2'')) (\<lambda>_.
     pbind (process_document env doc_v2_path) (\<lambda>processed_v2.
     pbind (checked_chunks processed_v2
              (Exn (ascii ''Failed to process document v2 or no text extracted: '' @ doc_v2_path)))
       (\<lambda>chunks_v2.
     returns (chunks_v1, chunks_v2)))))))"

text \<open>Lines 559 to 566: the comments are loaded and embedded.\<close>

definition comments_stage :: "'w env \<Rightarrow> pystr \<Rightarrow> ('w, comment list) prog" where
  "comments_stage env comments_path =
     pbind (set_progress (ascii ''processing_comments'')) (\<lambda>_.
     pbind (process_comments env comments_path) (\<lambda>processed_comments.
     checked_comments processed_comments
       (Exn (ascii ''Failed to process comments or no comments found: '' @ comments_path))))"

text \<open>Lines 568 to 590: one fresh collection per document version.\<close>

definition vector_db_stage ::
  "'w env \<Rightarrow> pystr \<Rightarrow> pystr \<Rightarrow> chunk list \<Rightarrow> chunk list \<Rightarrow> ('w, unit) prog" where
  "vector_db_stage env task_id doc_base_name chunks_v1 chunks_v2 =
     pbind (set_progress (ascii ''creating_vector_db'')) (\<lambda>_.
     let v1_name = v1_collection (settings env) doc_base_name task_id;
         v2_name = v2_collection (settings env) doc_base_name task_id
     in
     pbind (vs_recreate env v1_name) (\<lambda>_.
     pbind (vs_upsert env v1_name chunks_v1) (\<lambda>_.
     pbind (vs_recreate env v2_name) (\<lambda>_.
     vs_upsert env v2_name chunks_v2))))"

text \<open>Lines 592 to 607: every comment is analyzed, in order.\<close>

definition analysis_stage ::
  "'w env \<Rightarrow> pystr \<Rightarrow> pystr \<Rightarrow> comment list \<Rightarrow> ('w, analysis_result list) prog" where
  "analysis_stage env task_id doc_base_name processed_comments =
     pbind (set_progress (ascii ''analyzing_comments'')) (\<lambda>_.
     analyze_loop env (analysis_base_name (settings env) doc_base_name task_id)
       (length processed_comments) 0 processed_comments [])"

text \<open>Lines 609 to 626: the report is written and the task marked as completed.\<close>

definition saving_stage :: "'w env \<Rightarrow> pystr \<Rightarrow> analysis_result list \<Rightarrow> ('w, unit) prog" where
  "saving_stage env task_id results =
     pbind (set_progress (ascii ''saving_results'')) (\<lambda>_.
     let results_file = ascii ''results_'' @ task_id @ ascii ''.json'';
         path = ascii ''results/'' @ results_file
     in
     pbind (external (write_results env path results)) (\<lambda>_.
     pbind (current_time env) (\<lambda>t.
     update_task (\<lambda>r. r\<lparr> task_status := ascii ''completed'',
                          progress := ascii ''completed'',
                          completed_at := Some t,
                          task_result := Some results,
                          results_path := Some path \<rparr>))))"

definition process_documents_body ::
  "'w env \<Rightarrow> pystr \<Rightarrow> pystr \<Rightarrow> pystr \<Rightarrow> pystr \<Rightarrow> pystr \<Rightarrow> ('w, unit) prog" where
  "process_documents_body env task_id doc_v1_path doc_v2_path comments_path doc_base_name =
     pbind (documents_stage env doc_v1_path doc_v2_path) (\<lambda>(chunks_v1, chunks_v2).
     pbind (comments_stage env comments_path) (\<lambda>processed_comments.
     pbind (vector_db_stage env task_id doc_base_name chunks_v1 chunks_v2) (\<lambda>_.
     pbind (analysis_stage env task_id doc_base_name processed_comments) (\<lambda>results.
     saving_stage env task_id results))))"

text \<open>\<open>process_documents\<close>: the body, and the handler that records the failure.\<close>

definition process_documents ::
  "'w env \<Rightarrow> pystr \<Rightarrow> pystr \<Rightarrow> pystr \<Rightarrow> pystr \<Rightarrow> pystr \<Rightarrow> ('w, unit) prog" where
  "process_documents env task_id doc_v1_path doc_v2_path comments_path doc_base_name =
     pcatch
       (process_documents_body env task_id doc_v1_path doc_v2_path comments_path doc_base_name)
       (\<lambda>e. pbind (current_time env) (\<lambda>t.
          update_task (\<lambda>r. r\<lparr> task_status := ascii ''error'',
                               progress := ascii ''error'',
                               task_error := Some (str_exn e),
                               completed_at := Some t \<rparr>)))"

text \<open>The entry that \<open>analyze_documents\<close> stores before it starts the task.\<close>

definition new_task :: task where
  "new_task =
     \<lparr> task_status = ascii ''processing'',
       progress = ascii ''uploading'',
       comment_progress = None,
       task_result = None,
       results_path = None,
       task_error = None,
       completed_at = None \<rparr>"

section \<open>A sample environment\<close>

text \<open>
  The theorems below hold for every environment.  Their instances are evaluated in this
  one: a world without state, a vector store that finds nothing, an embedding model that
  returns one empty vector per text, a splitter that returns the text as one chunk, and a
  completion service that answers with a given response.  The document
  \<open>missing.txt\<close> cannot be read.  \<open>sample_json_loads\<close> agrees with \<open>json.loads\<close> on
  the texts listed and rejects every other text with the message \<open>json.loads\<close> gives
  for a text that does not begin with a JSON value.
\<close>

definition sample_object :: pystr where
  \<open>sample_object =
     ascii ''{"explanation": "done", "evidence_v1": "a", "evidence_v2": "b", "suggestion": "", "status": "maybe"}''\<close>

definition sample_dict :: "(pystr \<times> pyval) list" where
  "sample_dict =
     [(ascii ''explanation'', PyStr (ascii ''done'')),
      (ascii ''evidence_v1'', PyStr (ascii ''a'')),
      (ascii ''evidence_v2'', PyStr (ascii ''b'')),
      (ascii ''suggestion'', PyStr []),
      (ascii ''status'', PyStr (ascii ''maybe''))]"

definition sample_json_loads :: "pystr \<Rightarrow> exn + pyval" where
  \<open>sample_json_loads t =
     (if t = sample_object then Inr (PyDict sample_dict)
      else if t = ascii ''{"status": "maybe"}'' then
        Inr (PyDict [(ascii ''status'', PyStr (ascii ''maybe''))])
      else if t = ascii ''{}'' then Inr (PyDict [])
      else if t = ascii ''{oops}'' then
        Inl (Exn (ascii ''Expecting property name enclosed in double quotes: line 1 column 2 (char 1)''))
      else Inl (Exn (ascii ''Expecting value: line 1 column 1 (char 0)'')))\<close>

definition sample_env :: "pystr option \<Rightarrow> pystr list \<Rightarrow> unit env" where
  "sample_env response lines =
     \<lparr> settings = default_settings,
       json_loads = sample_json_loads,
       get_completion = (\<lambda>p w. (Inr response, w)),
       search = (\<lambda>name vec k w. (Inr [], w)),
       recreate_collection = (\<lambda>name w. (Inr (), w)),
       upsert_chunks = (\<lambda>name cs w. (Inr (), w)),
       encode = (\<lambda>texts prefix w. (Inr (map (\<lambda>t. []) texts), w)),
       split_text = (\<lambda>t. [t]),
       load_document_text = (\<lambda>p. if p = ascii ''missing.txt'' then None else Some (ascii ''text'')),
       read_lines = (\<lambda>p. Some lines),
       write_results = (\<lambda>p rs w. (Inr (), w)),
       now = (\<lambda>w. ascii ''2024-01-01T00:00:00'') \<rparr>"

definition sample_state :: "unit state" where
  "sample_state = \<lparr> world = (), vs_calls = [], task = new_task \<rparr>"

definition sample_comment :: comment where
  "sample_comment =
     \<lparr> comment_id = ascii ''C1'', comment_text = ascii ''Add a glossary'', embedding = Some [] \<rparr>"

definition sample_lines :: "pystr list" where
  "sample_lines = [[10], ascii ''hello'' @ [10], ascii ''  '', ascii '' x '']"

section \<open>String operations\<close>

lemma py_find_takeWhile:
  "py_find c s = (if c \<in> set s then int (length (takeWhile (\<lambda>x. x \<noteq> c) s)) else - 1)"
  by (induction s) (auto simp: Let_def)

lemma py_rfind_takeWhile:
  "py_rfind c s =
     (if c \<in> set s then int (length s) - 1 - int (length (takeWhile (\<lambda>x. x \<noteq> c) (rev s))) else - 1)"
  by (simp add: py_rfind_def py_find_takeWhile Let_def)

lemma py_bound_nat: "0 \<le> k \<Longrightarrow> k \<le> int (length s) \<Longrightarrow> py_bound s k = nat k"
  by (simp add: py_bound_def Let_def min_def)

lemma cut_after_last:
  "take (length s - length (takeWhile P (rev s))) s = rev (dropWhile P (rev s))"
proof -
  have "rev (dropWhile P (rev s)) = rev (drop (length (takeWhile P (rev s))) (rev s))"
    by (simp add: dropWhile_eq_drop)
  also have "\<dots> = take (length s - length (takeWhile P (rev s))) s"
    by (simp add: rev_drop)
  finally show ?thesis by simp
qed

lemma between_first_and_last:
  assumes c: "c \<in> set s" and d: "d \<in> set s"
  shows "py_slice s (py_find c s) (py_rfind d s + 1) =
         rev (dropWhile (\<lambda>x. x \<noteq> d) (rev (dropWhile (\<lambda>x. x \<noteq> c) s)))"
proof -
  define i where "i = length (takeWhile (\<lambda>x. x \<noteq> c) s)"
  define n where "n = length (takeWhile (\<lambda>x. x \<noteq> d) (rev s))"
  define T where "T = rev (dropWhile (\<lambda>x. x \<noteq> d) (rev s))"
  define v where "v = rev (takeWhile (\<lambda>x. x \<noteq> d) (rev s))"
  have s_split: "s = T @ v"
  proof -
    have "rev (takeWhile (\<lambda>x. x \<noteq> d) (rev s) @ dropWhile (\<lambda>x. x \<noteq> d) (rev s)) = s"
      by (simp only: takeWhile_dropWhile_id rev_rev_ident)
    then show ?thesis by (simp only: T_def v_def rev_append)
  qed
  have d_v: "d \<notin> set v"
    by (auto simp: v_def dest: set_takeWhileD)
  have i_le: "i \<le> length s"
    by (simp add: i_def length_takeWhile_le)
  have n_le: "n \<le> length s"
    using length_takeWhile_le [of "\<lambda>x. x \<noteq> d" "rev s"] by (simp add: n_def)
  have find: "py_find c s = int i"
    using c by (simp add: py_find_takeWhile i_def)
  have rfind: "py_rfind d s + 1 = int (length s - n)"
    using d n_le by (simp add: py_rfind_takeWhile n_def)
  have "py_slice s (py_find c s) (py_rfind d s + 1) = take (length s - n - i) (drop i s)"
    using i_le by (simp add: py_slice_def find rfind py_bound_nat)
  also have "\<dots> = drop i (take (length s - n) s)"
    by (simp add: drop_take)
  also have "take (length s - n) s = T"
    by (simp add: n_def T_def cut_after_last)
  finally have lhs: "py_slice s (py_find c s) (py_rfind d s + 1) = drop i T" .
  show ?thesis
  proof (cases "c \<in> set T")
    case True
    have tw: "takeWhile (\<lambda>x. x \<noteq> c) (T @ v) = takeWhile (\<lambda>x. x \<noteq> c) T"
      using True by simp
    have dw: "dropWhile (\<lambda>x. x \<noteq> c) (T @ v) = dropWhile (\<lambda>x. x \<noteq> c) T @ v"
      using True by simp
    define D where "D = dropWhile (\<lambda>x. x \<noteq> c) T"
    have D_ne: "D \<noteq> []"
      using True by (simp add: D_def)
    have T_ne: "T \<noteq> []"
      using True by auto
    have "hd (rev T) = d"
    proof -
      have "dropWhile (\<lambda>x. x \<noteq> d) (rev s) \<noteq> []"
        using T_ne by (simp add: T_def)
      then have "\<not> (hd (dropWhile (\<lambda>x. x \<noteq> d) (rev s)) \<noteq> d)"
        by (rule hd_dropWhile)
      then show ?thesis by (simp add: T_def)
    qed
    then have last_T: "last T = d"
      using T_ne by (simp add: hd_rev)
    have "\<exists>p. T = p @ D"
      unfolding D_def by (metis takeWhile_dropWhile_id)
    then have last_D: "last D = d"
      using D_ne last_T by auto
    have rev_D: "rev D = d # rev (butlast D)"
      using D_ne last_D by (metis append_butlast_last_id rev_eq_Cons_iff rev_rev_ident)
    have "drop i T = D"
      using s_split tw by (simp add: i_def D_def dropWhile_eq_drop)
    moreover have "rev (dropWhile (\<lambda>x. x \<noteq> d) (rev (dropWhile (\<lambda>x. x \<noteq> c) s))) = D"
    proof -
      have "dropWhile (\<lambda>x. x \<noteq> c) s = D @ v"
        using s_split dw by (simp add: D_def)
      then have "rev (dropWhile (\<lambda>x. x \<noteq> c) s) = rev v @ rev D"
        by simp
      moreover have "dropWhile (\<lambda>x. x \<noteq> d) (rev v @ rev D) = dropWhile (\<lambda>x. x \<noteq> d) (rev D)"
        using d_v by (intro dropWhile_append2) auto
      moreover have "dropWhile (\<lambda>x. x \<noteq> d) (rev D) = rev D"
        by (simp add: rev_D)
      ultimately show ?thesis by simp
    qed
    ultimately show ?thesis using lhs by simp
  next
    case False
    have "takeWhile (\<lambda>x. x \<noteq> c) (T @ v) = T @ takeWhile (\<lambda>x. x \<noteq> c) v"
      using False by (intro takeWhile_append2) auto
    then have "length T \<le> i"
      using s_split by (simp add: i_def)
    then have "drop i T = []" by simp
    moreover have "rev (dropWhile (\<lambda>x. x \<noteq> d) (rev (dropWhile (\<lambda>x. x \<noteq> c) s))) = []"
    proof -
      have "dropWhile (\<lambda>x. x \<noteq> c) (T @ v) = dropWhile (\<lambda>x. x \<noteq> c) v"
        using False by (intro dropWhile_append2) auto
      then have "set (dropWhile (\<lambda>x. x \<noteq> c) s) \<subseteq> set v"
        using s_split by (metis set_dropWhileD subsetI)
      then have "d \<notin> set (rev (dropWhile (\<lambda>x. x \<noteq> c) s))"
        using d_v by auto
      then have "dropWhile (\<lambda>x. x \<noteq> d) (rev (dropWhile (\<lambda>x. x \<noteq> c) s)) = []"
        by auto
      then show ?thesis by simp
    qed
    ultimately show ?thesis using lhs by simp
  qed
qed


lemma lbrace_not_space: "\<not> py_isspace lbrace"
  by (simp add: py_isspace_def lbrace_def)

lemma rbrace_not_space: "\<not> py_isspace rbrace"
  by (simp add: py_isspace_def rbrace_def)

lemma py_strip_decomp:
  "\<exists>a b. r = a @ py_strip r @ b \<and> (\<forall>x\<in>set a. py_isspace x) \<and> (\<forall>x\<in>set b. py_isspace x)"
proof -
  define a where "a = takeWhile py_isspace r"
  define m where "m = dropWhile py_isspace r"
  define b where "b = rev (takeWhile py_isspace (rev m))"
  have "rev (takeWhile py_isspace (rev m) @ dropWhile py_isspace (rev m)) = m"
    by (simp only: takeWhile_dropWhile_id rev_rev_ident)
  then have m: "m = py_strip r @ b"
    by (simp only: py_strip_def b_def m_def rev_append)
  have "r = a @ m"
    by (simp add: a_def m_def)
  with m have "r = a @ py_strip r @ b" by simp
  moreover have "\<forall>x\<in>set a. py_isspace x"
    by (auto simp: a_def dest: set_takeWhileD)
  moreover have "\<forall>x\<in>set b. py_isspace x"
    by (auto simp: b_def dest: set_takeWhileD)
  ultimately show ?thesis by blast
qed

lemma py_strip_keeps:
  assumes "\<not> py_isspace c"
  shows "c \<in> set (py_strip r) \<longleftrightarrow> c \<in> set r"
proof -
  obtain a b where r: "r = a @ py_strip r @ b"
    and a: "\<forall>x\<in>set a. py_isspace x" and b: "\<forall>x\<in>set b. py_isspace x"
    using py_strip_decomp by blast
  have "set r = set a \<union> set (py_strip r) \<union> set b"
    by (subst r) auto
  with a b assms show ?thesis by auto
qed

lemma brace_substring_strip:
  assumes "lbrace \<in> set r"
  shows "brace_substring (py_strip r) = brace_substring r"
proof -
  obtain a b where r: "r = a @ py_strip r @ b"
    and a: "\<forall>x\<in>set a. py_isspace x" and b: "\<forall>x\<in>set b. py_isspace x"
    using py_strip_decomp by blast
  define core where "core = py_strip r"
  define D where "D = dropWhile (\<lambda>x. x \<noteq> lbrace) core"
  have la: "lbrace \<notin> set a" and rb: "rbrace \<notin> set b"
    using a b lbrace_not_space rbrace_not_space by auto
  have lc: "lbrace \<in> set core"
    using assms by (simp add: core_def py_strip_keeps lbrace_not_space)
  have "dropWhile (\<lambda>x. x \<noteq> lbrace) (a @ core @ b) = dropWhile (\<lambda>x. x \<noteq> lbrace) (core @ b)"
    using la by (intro dropWhile_append2) auto
  also have "\<dots> = D @ b"
    using lc by (simp add: D_def)
  finally have "dropWhile (\<lambda>x. x \<noteq> lbrace) r = D @ b"
    using r by (simp add: core_def)
  then have "brace_substring r = rev (dropWhile (\<lambda>x. x \<noteq> rbrace) (rev b @ rev D))"
    by (simp add: brace_substring_def)
  also have "dropWhile (\<lambda>x. x \<noteq> rbrace) (rev b @ rev D) = dropWhile (\<lambda>x. x \<noteq> rbrace) (rev D)"
    using rb by (intro dropWhile_append2) auto
  finally show ?thesis
    by (simp add: brace_substring_def D_def core_def)
qed

lemma py_find_found: "py_find c s \<noteq> - 1 \<longleftrightarrow> c \<in> set s"
  by (simp add: py_find_takeWhile)

lemma length_takeWhile_less:
  assumes "x \<in> set xs" and "\<not> P x"
  shows "length (takeWhile P xs) < length xs"
proof -
  have "takeWhile P xs \<noteq> xs"
    using assms by auto
  moreover have "length (takeWhile P xs) \<le> length xs"
    by (rule length_takeWhile_le)
  moreover have "xs = takeWhile P xs @ dropWhile P xs"
    by simp
  ultimately show ?thesis
    by (metis append_Nil2 length_append le_neq_implies_less add_cancel_right_right length_0_conv)
qed

lemma py_rfind_found: "py_rfind c s \<noteq> - 1 \<longleftrightarrow> c \<in> set s"
proof (cases "c \<in> set s")
  case True
  then have "length (takeWhile (\<lambda>x. x \<noteq> c) (rev s)) < length (rev s)"
    by (intro length_takeWhile_less [of c]) auto
  then show ?thesis
    using True by (simp add: py_rfind_takeWhile)
next
  case False
  then show ?thesis by (simp add: py_rfind_takeWhile)
qed

lemma extract_json_text_eq:
  "extract_json_text r =
     (if lbrace \<in> set r \<and> rbrace \<in> set r then brace_substring r else py_strip r)"
proof (cases "lbrace \<in> set r \<and> rbrace \<in> set r")
  case True
  then have in_core: "lbrace \<in> set (py_strip r)" "rbrace \<in> set (py_strip r)"
    by (simp_all add: py_strip_keeps lbrace_not_space rbrace_not_space)
  then have "extract_json_text r =
      py_slice (py_strip r) (py_find lbrace (py_strip r)) (py_rfind rbrace (py_strip r) + 1)"
    by (simp add: extract_json_text_def Let_def py_find_found py_rfind_found)
  also have "\<dots> = brace_substring (py_strip r)"
    using in_core by (simp add: between_first_and_last brace_substring_def)
  also have "\<dots> = brace_substring r"
    using True by (simp add: brace_substring_strip)
  finally show ?thesis using True by simp
next
  case False
  then have "\<not> (lbrace \<in> set (py_strip r) \<and> rbrace \<in> set (py_strip r))"
    by (simp add: py_strip_keeps lbrace_not_space rbrace_not_space)
  then show ?thesis
    using False by (auto simp: extract_json_text_def Let_def py_find_found py_rfind_found)
qed

lemma brace_substring_wrapped:
  assumes pre: "lbrace \<notin> set pre" and post: "rbrace \<notin> set post"
    and obj: "obj \<noteq> []" "hd obj = lbrace" "last obj = rbrace"
  shows "brace_substring (pre @ obj @ post) = obj"
proof -
  obtain m where m: "obj = lbrace # m"
    using obj by (cases obj) auto
  have "dropWhile (\<lambda>x. x \<noteq> lbrace) (pre @ obj @ post) = dropWhile (\<lambda>x. x \<noteq> lbrace) (obj @ post)"
    using pre by (intro dropWhile_append2) auto
  also have "\<dots> = obj @ post"
    by (simp add: m)
  finally have "brace_substring (pre @ obj @ post) =
      rev (dropWhile (\<lambda>x. x \<noteq> rbrace) (rev post @ rev obj))"
    by (simp add: brace_substring_def)
  also have "dropWhile (\<lambda>x. x \<noteq> rbrace) (rev post @ rev obj) = dropWhile (\<lambda>x. x \<noteq> rbrace) (rev obj)"
    using post by (intro dropWhile_append2) auto
  also have "rev obj = rbrace # rev (butlast obj)"
    using obj by (metis append_butlast_last_id rev_eq_Cons_iff rev_rev_ident)
  finally have "brace_substring (pre @ obj @ post) = butlast obj @ [rbrace]"
    by simp
  moreover have "butlast obj @ [rbrace] = obj"
    using obj append_butlast_last_id [of obj] by simp
  ultimately show ?thesis by simp
qed

lemma extract_json_text_wrapped:
  assumes "lbrace \<notin> set pre" and "rbrace \<notin> set post"
    and "obj \<noteq> []" "hd obj = lbrace" "last obj = rbrace"
  shows "extract_json_text (pre @ obj @ post) = obj"
proof -
  have "lbrace \<in> set obj"
    using assms(3,4) hd_in_set by metis
  moreover have "rbrace \<in> set obj"
    using assms(3,5) last_in_set by metis
  ultimately show ?thesis
    using assms by (simp add: extract_json_text_eq brace_substring_wrapped)
qed

section \<open>The analyzer, step by step\<close>

lemma analyze_comment_completed:
  assumes "request_completion env comment base s = (Inr r, s')"
  shows "analyze_comment env comment base s =
           (Inr (parse_llm_response (json_loads env) comment r), s')"
  using assms by (simp add: analyze_comment_def pbind_def returns_def)

lemma analyze_comment_Inr:
  assumes "analyze_comment env comment base s = (Inr res, s')"
  shows "\<exists>r. request_completion env comment base s = (Inr r, s') \<and>
             res = parse_llm_response (json_loads env) comment r"
  using assms
  by (auto simp: analyze_comment_def pbind_def returns_def split: prod.splits sum.splits)

lemma parse_llm_response_entry:
  "comment_id (parse_llm_response loads comment r) = comment_id comment \<and>
   comment_text (parse_llm_response loads comment r) = comment_text comment"
  by (simp add: parse_llm_response_def create_error_result_def Let_def
           split: option.splits sum.splits pyval.splits)

lemma parse_llm_response_dict:
  assumes "t \<noteq> []" and "loads (extract_json_text t) = Inr (PyDict d)"
  shows "parse_llm_response loads comment (Some t) =
     \<lparr> comment_id = comment_id comment,
       comment_text = comment_text comment,
       explanation = dict_get d (ascii ''explanation'') (PyStr (ascii ''No explanation provided'')),
       evidence_v1 = dict_get d (ascii ''evidence_v1'') (PyStr (ascii ''No evidence provided'')),
       evidence_v2 = dict_get d (ascii ''evidence_v2'') (PyStr (ascii ''No evidence provided'')),
       suggestion = dict_get d (ascii ''suggestion'') (PyStr []),
       status = dict_get d (ascii ''status'') (PyStr status_not_addressed) \<rparr>"
  using assms by (simp add: parse_llm_response_def Let_def)

lemma parse_llm_response_failure:
  assumes "t \<noteq> []" and "loads (extract_json_text t) = Inl e"
  shows "parse_llm_response loads comment (Some t) =
           create_error_result comment (Some e) (extract_json_text t)"
  using assms by (simp add: parse_llm_response_def Let_def)

lemma sample_request:
  "request_completion (sample_env r ls) sample_comment base sample_state =
     (Inr r, sample_state\<lparr>vs_calls :=
        [Search (ascii ''doc_v1_'' @ base) [] 10, Search (ascii ''doc_v2_'' @ base) [] 10]\<rparr>)"
  by (simp add: request_completion_def sample_env_def sample_comment_def sample_state_def
      comment_embedding_def vs_search_def pbind_def returns_def external_def log_call_def
      default_settings_def top_k_def Let_def)

section \<open>Claims about analyze\_comment\<close>






text \<open>An instance: the candidate \<open>{oops}\<close> is not JSON.\<close>

lemma sample_oops:
  "extract_json_text (ascii ''Answer: {oops}'') = ascii ''{oops}''"
proof -
  have "extract_json_text (ascii ''Answer: '' @ ascii ''{oops}'' @ []) = ascii ''{oops}''"
    by (rule extract_json_text_wrapped) (simp_all add: ascii_def lbrace_def rbrace_def)
  then show ?thesis by (simp add: ascii_def)
qed

lemma sample_loads_oops:
  "sample_json_loads (ascii ''{oops}'') =
     Inl (Exn (ascii ''Expecting property name enclosed in double quotes: line 1 column 2 (char 1)''))"
  by (simp add: sample_json_loads_def sample_object_def ascii_def)


text \<open>
  C4.  When the candidate of a non-empty response loads as a JSON object,
  \<open>analyze_comment\<close> returns normally, and each of the five fields of the result is
  the value of the object under that key or, when the key is missing, a fixed
  placeholder string.
\<close>

theorem analyze_comment_placeholders:
  assumes "request_completion env comment base s = (Inr (Some t), s')"
    and "t \<noteq> []"
    and "json_loads env (extract_json_text t) = Inr (PyDict d)"
  shows "\<exists>res. analyze_comment env comment base s = (Inr res, s') \<and>
     explanation res =
       (case map_of d (ascii ''explanation'') of
          Some v \<Rightarrow> v | None \<Rightarrow> PyStr (ascii ''No explanation provided'')) \<and>
     evidence_v1 res =
       (case map_of d (ascii ''evidence_v1'') of
          Some v \<Rightarrow> v | None \<Rightarrow> PyStr (ascii ''No evidence provided'')) \<and>
     evidence_v2 res =
       (case map_of d (ascii ''evidence_v2'') of
          Some v \<Rightarrow> v | None \<Rightarrow> PyStr (ascii ''No evidence provided'')) \<and>
     suggestion res =
       (case map_of d (ascii ''suggestion'') of Some v \<Rightarrow> v | None \<Rightarrow> PyStr []) \<and>
     status res =
       (case map_of d (ascii ''status'') of
          Some v \<Rightarrow> v | None \<Rightarrow> PyStr status_not_addressed)"
  using analyze_comment_completed [OF assms(1)]
    parse_llm_response_dict [of t "json_loads env" d comment, OF assms(2,3)]
  by (simp add: dict_get_def)

text \<open>An instance: an object that holds only \<open>status\<close>.\<close>

lemma sample_status_only:
  \<open>extract_json_text (ascii ''Verdict: {"status": "maybe"}. Bye'') = ascii ''{"status": "maybe"}''\<close>
proof -
  have \<open>extract_json_text (ascii ''Verdict: '' @ ascii ''{"status": "maybe"}'' @ ascii ''. Bye'') =
      ascii ''{"status": "maybe"}''\<close>
    by (rule extract_json_text_wrapped) (simp_all add: ascii_def lbrace_def rbrace_def)
  then show ?thesis by (simp add: ascii_def)
qed

lemma sample_loads_status_only:
  \<open>sample_json_loads (ascii ''{"status": "maybe"}'') =
     Inr (PyDict [(ascii ''status'', PyStr (ascii ''maybe''))])\<close>
  by (simp add: sample_json_loads_def sample_object_def ascii_def)

theorem analyze_comment_placeholders_witness:
  \<open>json_loads (sample_env (Some (ascii ''Verdict: {"status": "maybe"}. Bye'')) [])
       (extract_json_text (ascii ''Verdict: {"status": "maybe"}. Bye'')) =
     Inr (PyDict [(ascii ''status'', PyStr (ascii ''maybe''))]) \<and>
   (\<exists>res. analyze_comment (sample_env (Some (ascii ''Verdict: {"status": "maybe"}. Bye'')) [])
            sample_comment (ascii ''x-task_1'') sample_state =
          (Inr res, sample_state\<lparr>vs_calls :=
             [Search (ascii ''doc_v1_'' @ ascii ''x-task_1'') [] 10,
              Search (ascii ''doc_v2_'' @ ascii ''x-task_1'') [] 10]\<rparr>) \<and>
          explanation res = PyStr (ascii ''No explanation provided'') \<and>
          evidence_v1 res = PyStr (ascii ''No evidence provided'') \<and>
          evidence_v2 res = PyStr (ascii ''No evidence provided'') \<and>
          suggestion res = PyStr [] \<and>
          status res = PyStr (ascii ''maybe''))\<close>
proof -
  let ?t = \<open>ascii ''Verdict: {"status": "maybe"}. Bye''\<close>
  let ?env = "sample_env (Some ?t) []"
  have ne: "?t \<noteq> []"
    by (simp add: ascii_def)
  have h: "json_loads ?env (extract_json_text ?t) =
      Inr (PyDict [(ascii ''status'', PyStr (ascii ''maybe''))])"
    by (simp add: sample_env_def sample_status_only sample_loads_status_only)
  have req: "request_completion ?env sample_comment (ascii ''x-task_1'') sample_state =
      (Inr (Some ?t), sample_state\<lparr>vs_calls :=
             [Search (ascii ''doc_v1_'' @ ascii ''x-task_1'') [] 10,
              Search (ascii ''doc_v2_'' @ ascii ''x-task_1'') [] 10]\<rparr>)"
    by (rule sample_request)
  from analyze_comment_placeholders [OF req ne h]
  obtain res where r: "analyze_comment ?env sample_comment (ascii ''x-task_1'') sample_state =
      (Inr res, sample_state\<lparr>vs_calls :=
             [Search (ascii ''doc_v1_'' @ ascii ''x-task_1'') [] 10,
              Search (ascii ''doc_v2_'' @ ascii ''x-task_1'') [] 10]\<rparr>)"
    "explanation res =
       (case map_of [(ascii ''status'', PyStr (ascii ''maybe''))] (ascii ''explanation'') of
          Some v \<Rightarrow> v | None \<Rightarrow> PyStr (ascii ''No explanation provided''))"
    "evidence_v1 res =
       (case map_of [(ascii ''status'', PyStr (ascii ''maybe''))] (ascii ''evidence_v1'') of
          Some v \<Rightarrow> v | None \<Rightarrow> PyStr (ascii ''No evidence provided''))"
    "evidence_v2 res =
       (case map_of [(ascii ''status'', PyStr (ascii ''maybe''))] (ascii ''evidence_v2'') of
          Some v \<Rightarrow> v | None \<Rightarrow> PyStr (ascii ''No evidence provided''))"
    "suggestion res =
       (case map_of [(ascii ''status'', PyStr (ascii ''maybe''))] (ascii ''suggestion'') of
          Some v \<Rightarrow> v | None \<Rightarrow> PyStr [])"
    "status res =
       (case map_of [(ascii ''status'', PyStr (ascii ''maybe''))] (ascii ''status'') of
          Some v \<Rightarrow> v | None \<Rightarrow> PyStr status_not_addressed)"
    by blast
  have "explanation res = PyStr (ascii ''No explanation provided'')"
    using r(2) by (simp add: ascii_def)
  moreover have "evidence_v1 res = PyStr (ascii ''No evidence provided'')"
    using r(3) by (simp add: ascii_def)
  moreover have "evidence_v2 res = PyStr (ascii ''No evidence provided'')"
    using r(4) by (simp add: ascii_def)
  moreover have "suggestion res = PyStr []"
    using r(5) by (simp add: ascii_def)
  moreover have "status res = PyStr (ascii ''maybe'')"
    using r(6) by simp
  ultimately show ?thesis
    using h r(1) by blast
qed

text \<open>
  C5.  When the candidate of a non-empty response is rejected by \<open>json.loads\<close> with an
  exception \<open>e\<close>, the result has status \<open>error\<close>, its evidence_v1 is the candidate
  text, and its explanation is \<open>Error analyzing comment: \<close> followed by \<open>str(e)\<close>.
  The candidate is the substring of the raw response from the first opening brace to
  the last closing brace when both occur, and the stripped response otherwise.
\<close>

theorem analyze_comment_parse_failure:
  assumes "request_completion env comment base s = (Inr (Some t), s')"
    and "t \<noteq> []"
    and "json_loads env (extract_json_text t) = Inl e"
  shows "\<exists>res. analyze_comment env comment base s = (Inr res, s') \<and>
     status res = PyStr (ascii ''error'') \<and>
     evidence_v1 res = PyStr (extract_json_text t) \<and>
     explanation res = PyStr (ascii ''Error analyzing comment: '' @ str_exn e) \<and>
     extract_json_text t =
       (if lbrace \<in> set t \<and> rbrace \<in> set t then brace_substring t else py_strip t)"
  using analyze_comment_completed [OF assms(1)] extract_json_text_eq [of t]
    parse_llm_response_failure [of t "json_loads env" e comment, OF assms(2,3)]
  by (simp add: create_error_result_def)

theorem analyze_comment_parse_failure_witness:
  "json_loads (sample_env (Some (ascii ''Answer: {oops}'')) [])
       (extract_json_text (ascii ''Answer: {oops}'')) =
     Inl (Exn (ascii ''Expecting property name enclosed in double quotes: line 1 column 2 (char 1)'')) \<and>
   (\<exists>res. analyze_comment (sample_env (Some (ascii ''Answer: {oops}'')) [])
            sample_comment (ascii ''x-task_1'') sample_state =
          (Inr res, sample_state\<lparr>vs_calls :=
             [Search (ascii ''doc_v1_'' @ ascii ''x-task_1'') [] 10,
              Search (ascii ''doc_v2_'' @ ascii ''x-task_1'') [] 10]\<rparr>) \<and>
          status res = PyStr (ascii ''error'') \<and>
          evidence_v1 res = PyStr (ascii ''{oops}'') \<and>
          explanation res = PyStr (ascii
            ''Error analyzing comment: Expecting property name enclosed in double quotes: line 1 column 2 (char 1)''))"
proof -
  let ?t = "ascii ''Answer: {oops}''"
  let ?env = "sample_env (Some ?t) []"
  have ne: "?t \<noteq> []"
    by (simp add: ascii_def)
  have h: "json_loads ?env (extract_json_text ?t) =
     Inl (Exn (ascii ''Expecting property name enclosed in double quotes: line 1 column 2 (char 1)''))"
    by (simp add: sample_env_def sample_oops sample_loads_oops)
  have req: "request_completion ?env sample_comment (ascii ''x-task_1'') sample_state =
      (Inr (Some ?t), sample_state\<lparr>vs_calls :=
             [Search (ascii ''doc_v1_'' @ ascii ''x-task_1'') [] 10,
              Search (ascii ''doc_v2_'' @ ascii ''x-task_1'') [] 10]\<rparr>)"
    by (rule sample_request)
  from analyze_comment_parse_failure [OF req ne h]
  obtain res where r: "analyze_comment ?env sample_comment (ascii ''x-task_1'') sample_state =
      (Inr res, sample_state\<lparr>vs_calls :=
             [Search (ascii ''doc_v1_'' @ ascii ''x-task_1'') [] 10,
              Search (ascii ''doc_v2_'' @ ascii ''x-task_1'') [] 10]\<rparr>)"
    "status res = PyStr (ascii ''error'')"
    "evidence_v1 res = PyStr (extract_json_text ?t)"
    "explanation res = PyStr (ascii ''Error analyzing comment: '' @ str_exn (Exn (ascii
       ''Expecting property name enclosed in double quotes: line 1 column 2 (char 1)'')))"
    by blast
  have "evidence_v1 res = PyStr (ascii ''{oops}'')"
    using r(3) by (simp only: sample_oops)
  moreover have "explanation res = PyStr (ascii
      ''Error analyzing comment: Expecting property name enclosed in double quotes: line 1 column 2 (char 1)'')"
    using r(4) by (simp add: ascii_def)
  ultimately show ?thesis
    using h r(1,2) by blast
qed

text \<open>
  C9.  Whatever the completion service answered, the result that \<open>analyze_comment\<close>
  returns carries the comment_id and the comment_text of the comment it was given.
\<close>

theorem analyze_comment_keeps_comment:
  assumes "analyze_comment env comment base s = (Inr res, s')"
  shows "comment_id res = comment_id comment \<and> comment_text res = comment_text comment"
  using analyze_comment_Inr [OF assms] parse_llm_response_entry by auto

text \<open>
  C10.  The status of the parsed object is adopted as it is: whatever value the
  object holds under \<open>status\<close> is the status of the result, also when it is none of the
  three verdict literals.
\<close>

theorem analyze_comment_status_verbatim:
  assumes "request_completion env comment base s = (Inr (Some t), s')"
    and "t \<noteq> []"
    and "json_loads env (extract_json_text t) = Inr (PyDict d)"
    and "map_of d (ascii ''status'') = Some v"
  shows "\<exists>res. analyze_comment env comment base s = (Inr res, s') \<and> status res = v"
  using analyze_comment_completed [OF assms(1)] assms(4)
    parse_llm_response_dict [of t "json_loads env" d comment, OF assms(2,3)]
  by (simp add: dict_get_def)

theorem analyze_comment_status_verbatim_witness:
  \<open>ascii ''maybe'' \<notin> verdict_literals \<and>
   (\<exists>res. analyze_comment (sample_env (Some (ascii ''Verdict: {"status": "maybe"}. Bye'')) [])
            sample_comment (ascii ''x-task_1'') sample_state =
          (Inr res, sample_state\<lparr>vs_calls :=
             [Search (ascii ''doc_v1_'' @ ascii ''x-task_1'') [] 10,
              Search (ascii ''doc_v2_'' @ ascii ''x-task_1'') [] 10]\<rparr>) \<and>
          status res = PyStr (ascii ''maybe''))\<close>
proof -
  let ?t = \<open>ascii ''Verdict: {"status": "maybe"}. Bye''\<close>
  let ?env = "sample_env (Some ?t) []"
  have ne: "?t \<noteq> []"
    by (simp add: ascii_def)
  have h: "json_loads ?env (extract_json_text ?t) =
      Inr (PyDict [(ascii ''status'', PyStr (ascii ''maybe''))])"
    by (simp add: sample_env_def sample_status_only sample_loads_status_only)
  have k: "map_of [(ascii ''status'', PyStr (ascii ''maybe''))] (ascii ''status'') =
      Some (PyStr (ascii ''maybe''))"
    by simp
  have req: "request_completion ?env sample_comment (ascii ''x-task_1'') sample_state =
      (Inr (Some ?t), sample_state\<lparr>vs_calls :=
             [Search (ascii ''doc_v1_'' @ ascii ''x-task_1'') [] 10,
              Search (ascii ''doc_v2_'' @ ascii ''x-task_1'') [] 10]\<rparr>)"
    by (rule sample_request)
  have "ascii ''maybe'' \<notin> verdict_literals"
    by (simp add: verdict_literals_def ascii_def)
  with analyze_comment_status_verbatim [OF req ne h k]
  show ?thesis by blast
qed

text \<open>
  Instances on the three paths: an empty response, a candidate that is not JSON, and
  an object that is parsed.
\<close>

theorem analyze_comment_keeps_comment_witness:
  "comment_id (parse_llm_response sample_json_loads sample_comment None) = ascii ''C1'' \<and>
   comment_text (parse_llm_response sample_json_loads sample_comment None) =
     ascii ''Add a glossary'' \<and>
   comment_id (parse_llm_response sample_json_loads sample_comment
     (Some (ascii ''Answer: {oops}''))) = ascii ''C1'' \<and>
   comment_text (parse_llm_response sample_json_loads sample_comment
     (Some (ascii ''Answer: {oops}''))) = ascii ''Add a glossary'' \<and>
   comment_id (parse_llm_response sample_json_loads sample_comment
     (Some (ascii ''Sure: '' @ sample_object @ ascii '' ok''))) = ascii ''C1'' \<and>
   comment_text (parse_llm_response sample_json_loads sample_comment
     (Some (ascii ''Sure: '' @ sample_object @ ascii '' ok''))) = ascii ''Add a glossary''"
proof -
  have path: "comment_id (parse_llm_response sample_json_loads sample_comment r) = ascii ''C1'' \<and>
      comment_text (parse_llm_response sample_json_loads sample_comment r) = ascii ''Add a glossary''"
    for r
  proof -
    let ?env = "sample_env r [] :: unit env"
    have req: "request_completion ?env sample_comment (ascii ''x-task_1'') sample_state =
        (Inr r, sample_state\<lparr>vs_calls :=
             [Search (ascii ''doc_v1_'' @ ascii ''x-task_1'') [] 10,
              Search (ascii ''doc_v2_'' @ ascii ''x-task_1'') [] 10]\<rparr>)"
      by (rule sample_request)
    have "analyze_comment ?env sample_comment (ascii ''x-task_1'') sample_state =
      (Inr (parse_llm_response (json_loads ?env) sample_comment r),
       sample_state\<lparr>vs_calls :=
             [Search (ascii ''doc_v1_'' @ ascii ''x-task_1'') [] 10,
              Search (ascii ''doc_v2_'' @ ascii ''x-task_1'') [] 10]\<rparr>)"
      by (rule analyze_comment_completed [OF req])
    from analyze_comment_keeps_comment [OF this]
    show ?thesis
      by (simp add: sample_env_def sample_comment_def)
  qed
  from path [of None] path [of "Some (ascii ''Answer: {oops}'')"]
    path [of "Some (ascii ''Sure: '' @ sample_object @ ascii '' ok'')"]
  show ?thesis by blast
qed

section \<open>Claims about load\_comments\<close>

lemma py_str_not_Nil: "py_str n \<noteq> []"
  by (subst py_str.simps) simp

lemma py_str_inj: "py_str n = py_str m \<Longrightarrow> n = m"
proof (induction n arbitrary: m rule: py_str.induct)
  case (1 n)
  show ?case
  proof (cases "n < 10")
    case True
    show ?thesis
    proof (cases "m < 10")
      case m: True
      from "1.prems" True m show ?thesis
        by (subst (asm) py_str.simps, subst (asm) (2) py_str.simps) simp
    next
      case m: False
      from "1.prems" True m have "[48 + n] = py_str (m div 10) @ [48 + m mod 10]"
        by (subst (asm) py_str.simps, subst (asm) (2) py_str.simps) simp
      then have "py_str (m div 10) = []" by simp
      then show ?thesis using py_str_not_Nil by blast
    qed
  next
    case False
    show ?thesis
    proof (cases "m < 10")
      case m: True
      from "1.prems" False m have "py_str (n div 10) @ [48 + n mod 10] = [48 + m]"
        by (subst (asm) py_str.simps, subst (asm) (2) py_str.simps) simp
      then have "py_str (n div 10) = []" by simp
      then show ?thesis using py_str_not_Nil by blast
    next
      case m: False
      from "1.prems" False m
      have "py_str (n div 10) @ [48 + n mod 10] = py_str (m div 10) @ [48 + m mod 10]"
        by (subst (asm) py_str.simps, subst (asm) (2) py_str.simps) simp
      then have eq: "py_str (n div 10) = py_str (m div 10)" and md: "n mod 10 = m mod 10"
        by simp_all
      from "1.IH" [OF False eq] have "n div 10 = m div 10" .
      with md show ?thesis
        by (metis div_mult_mod_eq)
    qed
  qed
qed

lemma load_comments_loop_eq:
  "load_comments_loop i lines acc =
     acc @ map (\<lambda>(k, line). \<lparr> comment_id = [67] @ py_str (k + 1),
                               comment_text = py_strip line,
                               embedding = None \<rparr>)
             (filter (\<lambda>(k, line). py_strip line \<noteq> []) (enumerate i lines))"
  by (induction lines arbitrary: i acc) (auto simp: Let_def)

text \<open>
  C3, as amended.  \<open>load_comments\<close> skips the blank lines (those that strip to the empty
  string) and gives each line it keeps the id \<open>C<n>\<close>, where \<open>n\<close> is the 1-based number
  of that line in the file, blank lines counted: the result is the list of the kept
  lines, each with the counter of \<open>enumerate\<close> plus one.  A file that cannot be read
  yields \<open>None\<close>.
\<close>

theorem load_comments_ids:
  "load_comments env file_path =
     map_option
       (\<lambda>lines. map (\<lambda>(k, line). \<lparr> comment_id = [67] @ py_str (k + 1),
                                    comment_text = py_strip line,
                                    embedding = None \<rparr>)
                  (filter (\<lambda>(k, line). py_strip line \<noteq> []) (enumerate 0 lines)))
       (read_lines env file_path)"
  by (simp add: load_comments_def load_comments_loop_eq split: option.splits)

text \<open>
  C3 as stated fails: in a file whose first line is blank and whose second line is
  \<open>hello\<close>, the one comment has the id \<open>C2\<close>, not \<open>C1\<close>.
\<close>

theorem load_comments_ids_counterexample:
  "load_comments (sample_env None [[10], ascii ''hello'' @ [10]]) (ascii ''comments.txt'') =
     Some [\<lparr> comment_id = ascii ''C2'', comment_text = ascii ''hello'', embedding = None \<rparr>] \<and>
   ascii ''C2'' \<noteq> ascii ''C1''"
  by (simp add: load_comments_def sample_env_def Let_def py_strip_def py_isspace_def ascii_def)

lemma load_comments_loop_distinct:
  "distinct (map comment_id (load_comments_loop 0 lines []))"
proof -
  let ?f = "\<lambda>(k, line). \<lparr> comment_id = [67] @ py_str (k + 1),
                               comment_text = py_strip line,
                               embedding = None \<rparr>"
  let ?xs = "filter (\<lambda>(k, line). py_strip line \<noteq> []) (enumerate 0 lines)"
  have "distinct (map fst ?xs)"
    by (rule distinct_map_filter) simp
  moreover have "map comment_id (map ?f ?xs) = map (\<lambda>k. [67] @ py_str (k + 1)) (map fst ?xs)"
    by (simp add: case_prod_unfold comp_def)
  moreover have "inj (\<lambda>k. [67] @ py_str (k + 1))"
    by (rule injI) (auto simp del: py_str.simps dest: py_str_inj)
  ultimately have "distinct (map comment_id (map ?f ?xs))"
    by (simp only: distinct_map) (auto intro: inj_on_subset)
  then show ?thesis
    by (simp add: load_comments_loop_eq)
qed

section \<open>Statement sequences\<close>

lemma pbind_Inr:
  assumes "pbind m f s = (Inr y, s')"
  obtains x s1 where "m s = (Inr x, s1)" and "f x s1 = (Inr y, s')"
  using assms by (auto simp: pbind_def split: prod.splits sum.splits)

lemma pbind_cases:
  assumes "pbind m f s = (r, s')"
  obtains (raised) e where "m s = (Inl e, s')" and "r = Inl e"
    | (continued) x s1 where "m s = (Inr x, s1)" and "f x s1 = (r, s')"
  using assms by (auto simp: pbind_def split: prod.splits sum.splits)

lemma external_frame:
  assumes "external f s = (r, s')"
  shows "vs_calls s' = vs_calls s \<and> task s' = task s"
  using assms by (auto simp: external_def split: prod.splits)

lemma update_task_eq: "update_task f s = (Inr (), s\<lparr>task := f (task s)\<rparr>)"
  by (simp add: update_task_def)

lemma set_progress_eq: "set_progress p s = (Inr (), s\<lparr>task := (task s)\<lparr>progress := p\<rparr>\<rparr>)"
  by (simp add: set_progress_def update_task_def)

section \<open>The processor\<close>

lemma process_document_frame:
  assumes "process_document env p s = (r, s')"
  shows "vs_calls s' = vs_calls s \<and> task s' = task s \<and> (\<exists>x. r = Inr x)"
  using assms
  by (auto simp: process_document_def returns_def pcatch_def pbind_def external_def Let_def
           split: option.splits if_splits prod.splits sum.splits)

lemma attach_embeddings_entries:
  "map comment_id (attach_embeddings cs vs) = map comment_id cs \<and>
   map comment_text (attach_embeddings cs vs) = map comment_text cs"
  by (induction cs vs rule: attach_embeddings.induct) auto

lemma process_comments_frame:
  assumes "process_comments env p s = (r, s')"
  shows "vs_calls s' = vs_calls s \<and> task s' = task s"
  using assms
  by (auto simp: process_comments_def returns_def pcatch_def pbind_def external_def Let_def
           split: option.splits if_splits prod.splits sum.splits)

lemma process_comments_Some:
  assumes "process_comments env p s = (Inr (Some cs), s')"
  shows "\<exists>loaded. load_comments env p = Some loaded \<and>
           map comment_id cs = map comment_id loaded \<and>
           map comment_text cs = map comment_text loaded"
  using assms
  by (auto simp: process_comments_def returns_def pcatch_def pbind_def external_def Let_def
                 attach_embeddings_entries
           split: option.splits if_splits prod.splits sum.splits)

lemma process_comments_blank:
  assumes "read_lines env p = Some lines" and "\<forall>line\<in>set lines. py_strip line = []"
  shows "process_comments env p s = (Inr (Some []), s)"
proof -
  have "filter (\<lambda>(k, line). py_strip line \<noteq> []) (enumerate 0 lines) = []"
    using assms(2) by (auto simp: filter_empty_conv in_set_enumerate_eq)
  then have "load_comments env p = Some []"
    using assms(1) by (simp add: load_comments_def load_comments_loop_eq)
  then show ?thesis
    by (simp add: process_comments_def returns_def)
qed

section \<open>The stages\<close>

lemma documents_stage_frame:
  assumes "documents_stage env p1 p2 s = (r, s')"
  shows "vs_calls s' = vs_calls s"
proof -
  have chk: "\<And>d e t t' x. checked_chunks d e t = (x, t') \<Longrightarrow> t' = t"
    by (auto simp: checked_chunks_def raises_def returns_def split: option.splits if_splits)
  from assms show ?thesis
    unfolding documents_stage_def
    by (elim pbind_cases)
       (auto simp: set_progress_eq returns_def dest!: process_document_frame chk)
qed


lemma comments_stage_Inr:
  assumes "comments_stage env p s = (Inr cs, s')"
  shows "\<exists>loaded. load_comments env p = Some loaded \<and>
           map comment_id cs = map comment_id loaded \<and>
           map comment_text cs = map comment_text loaded"
proof -
  from assms obtain processed s1 s2 where
      pc: "process_comments env p s1 = (Inr processed, s2)"
    and chk: "checked_comments processed
        (Exn (ascii ''Failed to process comments or no comments found: '' @ p)) s2 = (Inr cs, s')"
    unfolding comments_stage_def by (elim pbind_Inr) blast
  from chk have "processed = Some cs"
    by (auto simp: checked_comments_def raises_def returns_def split: option.splits if_splits)
  with pc show ?thesis
    by (auto dest: process_comments_Some)
qed

lemma comments_stage_blank:
  assumes "read_lines env p = Some lines" and "\<forall>line\<in>set lines. py_strip line = []"
  shows "comments_stage env p s =
     (Inl (Exn (ascii ''Failed to process comments or no comments found: '' @ p)),
      s\<lparr>task := (task s)\<lparr>progress := ascii ''processing_comments''\<rparr>\<rparr>)"
  by (simp add: comments_stage_def pbind_def set_progress_eq
      process_comments_blank [OF assms] checked_comments_def raises_def)

lemma analyze_loop_entries:
  assumes "analyze_loop env base n i cs acc s = (Inr rs, s')"
  shows "map comment_id rs = map comment_id acc @ map comment_id cs \<and>
         map comment_text rs = map comment_text acc @ map comment_text cs"
  using assms
proof (induction cs arbitrary: i acc s)
  case Nil
  then show ?case by (simp add: returns_def)
next
  case (Cons c cs)
  from Cons.prems obtain res s1 s2 where
      a: "analyze_comment env c base s1 = (Inr res, s2)"
    and l: "analyze_loop env base n (i + 1) cs (acc @ [res]) s2 = (Inr rs, s')"
    by (auto elim!: pbind_Inr)
  from analyze_comment_Inr [OF a] have "comment_id res = comment_id c \<and> comment_text res = comment_text c"
    using parse_llm_response_entry by auto
  with Cons.IH [OF l] show ?case by simp
qed

lemma analysis_stage_entries:
  assumes "analysis_stage env tid base cs s = (Inr rs, s')"
  shows "map comment_id rs = map comment_id cs \<and> map comment_text rs = map comment_text cs"
proof -
  from assms obtain s1 where
    "analyze_loop env (analysis_base_name (settings env) base tid) (length cs) 0 cs [] s1 = (Inr rs, s')"
    unfolding analysis_stage_def by (elim pbind_Inr) blast
  from analyze_loop_entries [OF this] show ?thesis by simp
qed

lemma saving_stage_Inr:
  assumes "saving_stage env tid rs s = (Inr u, s')"
  shows "task_result (task s') = Some rs \<and> task_status (task s') = ascii ''completed''"
  using assms unfolding saving_stage_def Let_def
  by (elim pbind_Inr) (auto simp: update_task_eq)

lemma process_documents_body_Inr:
  assumes "process_documents_body env tid p1 p2 pc base s = (Inr u, s')"
  shows "\<exists>loaded rs. load_comments env pc = Some loaded \<and>
           task_result (task s') = Some rs \<and>
           map comment_id rs = map comment_id loaded \<and>
           map comment_text rs = map comment_text loaded"
proof -
  from assms obtain cs rs s1 s2 s3 s4 where
      cm: "comments_stage env pc s1 = (Inr cs, s2)"
    and an: "analysis_stage env tid base cs s3 = (Inr rs, s4)"
    and sv: "saving_stage env tid rs s4 = (Inr u, s')"
    unfolding process_documents_body_def
    by (auto elim!: pbind_Inr)
  from comments_stage_Inr [OF cm] analysis_stage_entries [OF an] saving_stage_Inr [OF sv]
  show ?thesis by auto
qed

lemma error_not_completed: "ascii ''error'' \<noteq> ascii ''completed''"
  by (simp add: ascii_def)

lemma process_documents_cases:
  assumes "process_documents env tid p1 p2 pc base s = (r, s')"
  obtains (completed) u where "process_documents_body env tid p1 p2 pc base s = (Inr u, s')"
    | (failed) e s1 where "process_documents_body env tid p1 p2 pc base s = (Inl e, s1)"
        and "s' = s1\<lparr>task := (task s1)\<lparr> task_status := ascii ''error'',
                               progress := ascii ''error'',
                               task_error := Some (str_exn e),
                               completed_at := Some (now env (world s1)) \<rparr>\<rparr>"
  using assms
  by (auto simp: process_documents_def pcatch_def pbind_def current_time_def update_task_eq
           split: prod.splits sum.splits)


section \<open>Claims about process\_documents\<close>

text \<open>
  C6.  When a task ends in the completed state, its report holds one result for each
  comment that \<open>load_comments\<close> took from the comments file, in the order of the file:
  the ids and the texts of the results are, position by position, those of the loaded
  comments, and no two results share an id.
\<close>

theorem process_documents_report:
  assumes "task_status (task (snd (process_documents env task_id doc_v1_path doc_v2_path
             comments_path doc_base_name s))) = ascii ''completed''"
  shows "\<exists>loaded results.
           load_comments env comments_path = Some loaded \<and>
           task_result (task (snd (process_documents env task_id doc_v1_path doc_v2_path
             comments_path doc_base_name s))) = Some results \<and>
           length results = length loaded \<and>
           map comment_id results = map comment_id loaded \<and>
           map comment_text results = map comment_text loaded \<and>
           distinct (map comment_id results)"
proof -
  obtain r s' where run: "process_documents env task_id doc_v1_path doc_v2_path
      comments_path doc_base_name s = (r, s')"
    by (cases "process_documents env task_id doc_v1_path doc_v2_path comments_path doc_base_name s")
  from run assms have st: "task_status (task s') = ascii ''completed''"
    by simp
  from run show ?thesis
  proof (cases rule: process_documents_cases)
    case (completed u)
    from process_documents_body_Inr [OF this] obtain loaded rs where
        ld: "load_comments env comments_path = Some loaded"
      and rs: "task_result (task s') = Some rs"
        "map comment_id rs = map comment_id loaded"
        "map comment_text rs = map comment_text loaded"
      by blast
    from ld have "distinct (map comment_id loaded)"
      by (auto simp: load_comments_def load_comments_loop_distinct split: option.splits)
    moreover from rs(2) have "length rs = length loaded"
      by (rule map_eq_imp_length_eq)
    ultimately show ?thesis
      using ld rs run by simp
  next
    case (failed e s1)
    then have "task_status (task s') = ascii ''error''" by simp
    with st error_not_completed show ?thesis by simp
  qed
qed

text \<open>
  A run in the sample environment: two documents, and a comments file of four lines of
  which the second and the fourth are not blank.
\<close>

lemma sample_process_document:
  assumes "p \<noteq> ascii ''missing.txt''"
  shows "process_document (sample_env r ls) p s =
     (Inr (Some \<lparr> original_text = ascii ''text'',
                  chunks = [\<lparr> chunk_text = ascii ''text'', chunk_embedding = [], chunk_index = 0 \<rparr>] \<rparr>), s)"
  using assms
  by (simp add: process_document_def sample_env_def pcatch_def pbind_def external_def returns_def
      Let_def ascii_def)

lemma sample_documents_stage:
  assumes "p1 \<noteq> ascii ''missing.txt''" and "p2 \<noteq> ascii ''missing.txt''"
  shows "documents_stage (sample_env r ls) p1 p2 s =
     (Inr ([\<lparr> chunk_text = ascii ''text'', chunk_embedding = [], chunk_index = 0 \<rparr>],
           [\<lparr> chunk_text = ascii ''text'', chunk_embedding = [], chunk_index = 0 \<rparr>]),
      s\<lparr>task := (task s)\<lparr>progress := ascii ''processing_v2''\<rparr>\<rparr>)"
  by (simp add: documents_stage_def pbind_def set_progress_eq sample_process_document [OF assms(1)]
      sample_process_document [OF assms(2)] checked_chunks_def returns_def)

lemma sample_documents_stage_missing:
  "documents_stage (sample_env r ls) (ascii ''missing.txt'') p2 s =
     (Inl (Exn (ascii ''Failed to process document v1 or no text extracted: '' @ ascii ''missing.txt'')),
      s\<lparr>task := (task s)\<lparr>progress := ascii ''processing_v1''\<rparr>\<rparr>)"
  by (simp add: documents_stage_def pbind_def set_progress_eq process_document_def sample_env_def
      checked_chunks_def returns_def raises_def)

lemma sample_load_comments:
  "load_comments (sample_env r sample_lines) p =
     Some [\<lparr> comment_id = ascii ''C2'', comment_text = ascii ''hello'', embedding = None \<rparr>,
           \<lparr> comment_id = ascii ''C4'', comment_text = ascii ''x'', embedding = None \<rparr>]"
  by (simp add: load_comments_def sample_env_def sample_lines_def Let_def py_strip_def
      py_isspace_def ascii_def)

lemma sample_comments_stage:
  "comments_stage (sample_env r sample_lines) p s =
     (Inr [\<lparr> comment_id = ascii ''C2'', comment_text = ascii ''hello'', embedding = Some [] \<rparr>,
           \<lparr> comment_id = ascii ''C4'', comment_text = ascii ''x'', embedding = Some [] \<rparr>],
      s\<lparr>task := (task s)\<lparr>progress := ascii ''processing_comments''\<rparr>\<rparr>)"
  by (simp add: comments_stage_def pbind_def set_progress_eq process_comments_def
      sample_load_comments pcatch_def external_def returns_def checked_comments_def Let_def)
     (simp add: sample_env_def returns_def)

lemma sample_vector_db_stage:
  "\<exists>s1. vector_db_stage (sample_env r ls) tid base c1 c2 s = (Inr (), s1)"
  by (simp add: vector_db_stage_def pbind_def set_progress_eq vs_recreate_def vs_upsert_def
      log_call_def external_def Let_def sample_env_def)

lemma sample_analyze_comment:
  assumes "embedding c = Some v"
  shows "\<exists>res s1. analyze_comment (sample_env r ls) c base s = (Inr res, s1)"
  using assms
  by (simp add: analyze_comment_def request_completion_def comment_embedding_def vs_search_def
      pbind_def returns_def external_def log_call_def Let_def sample_env_def)

lemma sample_analyze_loop:
  assumes "\<forall>c\<in>set cs. embedding c \<noteq> None"
  shows "\<exists>rs s1. analyze_loop (sample_env r ls) base n i cs acc s = (Inr rs, s1)"
  using assms
proof (induction cs arbitrary: i acc s)
  case Nil
  then show ?case by (simp add: returns_def)
next
  case (Cons c cs)
  then obtain v where "embedding c = Some v" by auto
  from sample_analyze_comment [OF this] obtain res s1 where
    "analyze_comment (sample_env r ls) c base
       (s\<lparr>task := (task s)\<lparr>comment_progress := Some (py_str (i + 1) @ [47] @ py_str n)\<rparr>\<rparr>) = (Inr res, s1)"
    by blast
  moreover from Cons obtain rs s2 where
    "analyze_loop (sample_env r ls) base n (i + 1) cs (acc @ [res]) s1 = (Inr rs, s2)"
    by fastforce
  ultimately show ?case
    by (simp add: pbind_def update_task_eq del: py_str.simps)
qed

lemma sample_saving_stage:
  "\<exists>s1. saving_stage (sample_env r ls) tid rs s = (Inr (), s1)"
  by (simp add: saving_stage_def pbind_def set_progress_eq external_def current_time_def
      update_task_eq Let_def sample_env_def)

lemma sample_body:
  "\<exists>s1. process_documents_body (sample_env r sample_lines) (ascii ''task_1'')
      (ascii ''a.txt'') (ascii ''b.txt'') (ascii ''c.txt'') (ascii ''report'') sample_state = (Inr (), s1)"
proof -
  let ?env = "sample_env r sample_lines"
  have d: "ascii ''a.txt'' \<noteq> ascii ''missing.txt''" "ascii ''b.txt'' \<noteq> ascii ''missing.txt''"
    by (simp_all add: ascii_def)
  note ds = sample_documents_stage [OF d, of r sample_lines sample_state]
  note cs = sample_comments_stage
  obtain s3 where vs: "vector_db_stage ?env (ascii ''task_1'') (ascii ''report'')
      [\<lparr> chunk_text = ascii ''text'', chunk_embedding = [], chunk_index = 0 \<rparr>]
      [\<lparr> chunk_text = ascii ''text'', chunk_embedding = [], chunk_index = 0 \<rparr>]
      (sample_state\<lparr>task := (task sample_state)\<lparr>progress := ascii ''processing_comments''\<rparr>\<rparr>) = (Inr (), s3)"
    using sample_vector_db_stage by blast
  obtain rs s4 where an: "analysis_stage ?env (ascii ''task_1'') (ascii ''report'')
      [\<lparr> comment_id = ascii ''C2'', comment_text = ascii ''hello'', embedding = Some [] \<rparr>,
       \<lparr> comment_id = ascii ''C4'', comment_text = ascii ''x'', embedding = Some [] \<rparr>] s3 = (Inr rs, s4)"
  proof -
    have "\<exists>rs s4. analyze_loop ?env (analysis_base_name (settings ?env) (ascii ''report'') (ascii ''task_1''))
        2 0
        [\<lparr> comment_id = ascii ''C2'', comment_text = ascii ''hello'', embedding = Some [] \<rparr>,
         \<lparr> comment_id = ascii ''C4'', comment_text = ascii ''x'', embedding = Some [] \<rparr>] []
        (s3\<lparr>task := (task s3)\<lparr>progress := ascii ''analyzing_comments''\<rparr>\<rparr>) = (Inr rs, s4)"
      by (rule sample_analyze_loop) simp
    then show ?thesis
      using that by (auto simp: analysis_stage_def pbind_def set_progress_eq)
  qed
  obtain s5 where sv: "saving_stage ?env (ascii ''task_1'') rs s4 = (Inr (), s5)"
    using sample_saving_stage by blast
  show ?thesis
    using ds cs vs an sv
    by (simp add: process_documents_body_def pbind_def)
qed

lemma sample_run_completed:
  "task_status (task (snd (process_documents (sample_env r sample_lines) (ascii ''task_1'')
      (ascii ''a.txt'') (ascii ''b.txt'') (ascii ''c.txt'') (ascii ''report'') sample_state))) =
   ascii ''completed''"
proof -
  obtain s1 where b: "process_documents_body (sample_env r sample_lines) (ascii ''task_1'')
      (ascii ''a.txt'') (ascii ''b.txt'') (ascii ''c.txt'') (ascii ''report'') sample_state = (Inr (), s1)"
    using sample_body by blast
  have "process_documents_body (sample_env r sample_lines) (ascii ''task_1'')
      (ascii ''a.txt'') (ascii ''b.txt'') (ascii ''c.txt'') (ascii ''report'') sample_state = (Inr (), s1)
    \<Longrightarrow> task_status (task s1) = ascii ''completed''"
    unfolding process_documents_body_def
    by (auto elim!: pbind_Inr dest: saving_stage_Inr)
  with b show ?thesis
    by (simp add: process_documents_def pcatch_def)
qed


theorem process_documents_report_witness:
  "\<exists>results.
     task_result (task (snd (process_documents (sample_env None sample_lines) (ascii ''task_1'')
        (ascii ''a.txt'') (ascii ''b.txt'') (ascii ''c.txt'') (ascii ''report'') sample_state))) =
       Some results \<and>
     map comment_id results = [ascii ''C2'', ascii ''C4''] \<and>
     map comment_text results = [ascii ''hello'', ascii ''x''] \<and>
     distinct (map comment_id results)"
proof -
  from process_documents_report [OF sample_run_completed [of None]]
  obtain loaded results where
      ld: "load_comments (sample_env None sample_lines) (ascii ''c.txt'') = Some loaded"
    and r: "task_result (task (snd (process_documents (sample_env None sample_lines) (ascii ''task_1'')
        (ascii ''a.txt'') (ascii ''b.txt'') (ascii ''c.txt'') (ascii ''report'') sample_state))) =
       Some results"
      "map comment_id results = map comment_id loaded"
      "map comment_text results = map comment_text loaded"
      "distinct (map comment_id results)"
    by blast
  from ld have "loaded =
      [\<lparr> comment_id = ascii ''C2'', comment_text = ascii ''hello'', embedding = None \<rparr>,
       \<lparr> comment_id = ascii ''C4'', comment_text = ascii ''x'', embedding = None \<rparr>]"
    by (simp add: sample_load_comments)
  with r(2,3) have ids: "map comment_id results = [ascii ''C2'', ascii ''C4'']"
    and texts: "map comment_text results = [ascii ''hello'', ascii ''x'']"
    by simp_all
  show ?thesis
    by (rule exI [of _ results]) (intro conjI r(1) ids texts r(4))
qed

lemma process_documents_body_blank:
  assumes "read_lines env pc = Some lines" and "\<forall>line\<in>set lines. py_strip line = []"
  shows "\<exists>e s1. process_documents_body env tid p1 p2 pc base s = (Inl e, s1) \<and>
           vs_calls s1 = vs_calls s \<and>
           (\<forall>c s0. documents_stage env p1 p2 s = (Inr c, s0) \<longrightarrow>
              e = Exn (ascii ''Failed to process comments or no comments found: '' @ pc))"
proof -
  obtain r s0 where ds: "documents_stage env p1 p2 s = (r, s0)"
    by (cases "documents_stage env p1 p2 s")
  from documents_stage_frame [OF ds] have fr: "vs_calls s0 = vs_calls s" .
  show ?thesis
  proof (cases r)
    case (Inl e)
    with ds fr show ?thesis
      by (simp add: process_documents_body_def pbind_def)
  next
    case (Inr c)
    with ds fr comments_stage_blank [OF assms, of s0] show ?thesis
      by (simp add: process_documents_body_def pbind_def split: prod.splits)
  qed
qed

text \<open>
  C7, as amended.  When every line of the comments file is blank, the task ends in the
  error state and no call on the vector store is issued; when moreover both documents
  were processed into chunks, the recorded message is
  \<open>Failed to process comments or no comments found: \<close> followed by the path of the
  comments file.
\<close>

theorem process_documents_no_comments:
  assumes "read_lines env comments_path = Some lines"
    and "\<forall>line\<in>set lines. py_strip line = []"
  shows "task_status (task (snd (process_documents env task_id doc_v1_path doc_v2_path
             comments_path doc_base_name s))) = ascii ''error'' \<and>
         progress (task (snd (process_documents env task_id doc_v1_path doc_v2_path
             comments_path doc_base_name s))) = ascii ''error'' \<and>
         vs_calls (snd (process_documents env task_id doc_v1_path doc_v2_path
             comments_path doc_base_name s)) = vs_calls s \<and>
         (\<forall>c s0. documents_stage env doc_v1_path doc_v2_path s = (Inr c, s0) \<longrightarrow>
            task_error (task (snd (process_documents env task_id doc_v1_path doc_v2_path
             comments_path doc_base_name s))) =
              Some (ascii ''Failed to process comments or no comments found: '' @ comments_path))"
proof -
  from process_documents_body_blank [OF assms]
  obtain e s1 where
      b: "process_documents_body env task_id doc_v1_path doc_v2_path comments_path doc_base_name s =
            (Inl e, s1)"
    and fr: "vs_calls s1 = vs_calls s"
    and msg: "\<forall>c s0. documents_stage env doc_v1_path doc_v2_path s = (Inr c, s0) \<longrightarrow>
              e = Exn (ascii ''Failed to process comments or no comments found: '' @ comments_path)"
    by blast
  have "snd (process_documents env task_id doc_v1_path doc_v2_path comments_path doc_base_name s) =
      s1\<lparr>task := (task s1)\<lparr> task_status := ascii ''error'',
                               progress := ascii ''error'',
                               task_error := Some (str_exn e),
                               completed_at := Some (now env (world s1)) \<rparr>\<rparr>"
    using b by (simp add: process_documents_def pcatch_def pbind_def current_time_def update_task_eq)
  with fr msg show ?thesis by auto
qed

theorem process_documents_no_comments_witness:
  "read_lines (sample_env None [[10], ascii ''  '']) (ascii ''c.txt'') = Some [[10], ascii ''  ''] \<and>
   py_strip [10] = [] \<and> py_strip (ascii ''  '') = [] \<and>
   task_status (task (snd (process_documents (sample_env None [[10], ascii ''  '']) (ascii ''task_1'')
      (ascii ''a.txt'') (ascii ''b.txt'') (ascii ''c.txt'') (ascii ''report'') sample_state))) =
     ascii ''error'' \<and>
   vs_calls (snd (process_documents (sample_env None [[10], ascii ''  '']) (ascii ''task_1'')
      (ascii ''a.txt'') (ascii ''b.txt'') (ascii ''c.txt'') (ascii ''report'') sample_state)) = [] \<and>
   task_error (task (snd (process_documents (sample_env None [[10], ascii ''  '']) (ascii ''task_1'')
      (ascii ''a.txt'') (ascii ''b.txt'') (ascii ''c.txt'') (ascii ''report'') sample_state))) =
     Some (ascii ''Failed to process comments or no comments found: c.txt'')"
proof -
  let ?env = "sample_env None [[10], ascii ''  ''] :: unit env"
  have h1: "read_lines ?env (ascii ''c.txt'') = Some [[10], ascii ''  '']"
    by (simp add: sample_env_def)
  have b: "py_strip [10] = []" "py_strip (ascii ''  '') = []"
    by (simp_all add: py_strip_def py_isspace_def ascii_def)
  then have h2: "\<forall>line\<in>set [[10], ascii ''  '']. py_strip line = []"
    by simp
  have d: "ascii ''a.txt'' \<noteq> ascii ''missing.txt''" "ascii ''b.txt'' \<noteq> ascii ''missing.txt''"
    by (simp_all add: ascii_def)
  note ds = sample_documents_stage [OF d, of None "[[10], ascii ''  '']" sample_state]
  note t = process_documents_no_comments [OF h1 h2, of "ascii ''task_1''" "ascii ''a.txt''"
      "ascii ''b.txt''" "ascii ''report''" sample_state]
  from t ds have "task_error (task (snd (process_documents ?env (ascii ''task_1'')
      (ascii ''a.txt'') (ascii ''b.txt'') (ascii ''c.txt'') (ascii ''report'') sample_state))) =
     Some (ascii ''Failed to process comments or no comments found: '' @ ascii ''c.txt'')"
    by blast
  then have "task_error (task (snd (process_documents ?env (ascii ''task_1'')
      (ascii ''a.txt'') (ascii ''b.txt'') (ascii ''c.txt'') (ascii ''report'') sample_state))) =
     Some (ascii ''Failed to process comments or no comments found: c.txt'')"
    by (simp add: ascii_def)
  moreover have "vs_calls sample_state = []"
    by (simp add: sample_state_def)
  ultimately show ?thesis
    using t h1 b by simp
qed

text \<open>
  C7 as stated fails when a document cannot be processed: the comments file has no
  line that is not blank, but the message names the first document.
\<close>

theorem process_documents_no_comments_counterexample:
  "read_lines (sample_env None [[10], ascii ''  '']) (ascii ''c.txt'') = Some [[10], ascii ''  ''] \<and>
   py_strip [10] = [] \<and> py_strip (ascii ''  '') = [] \<and>
   task_error (task (snd (process_documents (sample_env None [[10], ascii ''  '']) (ascii ''task_1'')
      (ascii ''missing.txt'') (ascii ''b.txt'') (ascii ''c.txt'') (ascii ''report'') sample_state))) =
     Some (ascii ''Failed to process document v1 or no text extracted: missing.txt'')"
proof -
  let ?env = "sample_env None [[10], ascii ''  ''] :: unit env"
  have h1: "read_lines ?env (ascii ''c.txt'') = Some [[10], ascii ''  '']"
    by (simp add: sample_env_def)
  have b: "py_strip [10] = []" "py_strip (ascii ''  '') = []"
    by (simp_all add: py_strip_def py_isspace_def ascii_def)
  have "task_error (task (snd (process_documents ?env (ascii ''task_1'')
      (ascii ''missing.txt'') (ascii ''b.txt'') (ascii ''c.txt'') (ascii ''report'') sample_state))) =
     Some (ascii ''Failed to process document v1 or no text extracted: '' @ ascii ''missing.txt'')"
    by (simp add: process_documents_def process_documents_body_def pcatch_def pbind_def
        sample_documents_stage_missing current_time_def update_task_eq)
  then have "task_error (task (snd (process_documents ?env (ascii ''task_1'')
      (ascii ''missing.txt'') (ascii ''b.txt'') (ascii ''c.txt'') (ascii ''report'') sample_state))) =
     Some (ascii ''Failed to process document v1 or no text extracted: missing.txt'')"
    by (simp add: ascii_def)
  with h1 b show ?thesis by simp
qed

section \<open>Claims about the collection names\<close>

lemma remove_prefix_append: "remove_prefix (p @ rest) p = rest"
  by (simp add: remove_prefix_def py_startswith_def)

lemma remove_prefix_other: "\<not> py_startswith s p \<Longrightarrow> remove_prefix s p = s"
  by (simp add: remove_prefix_def)

lemma vector_db_stage_calls:
  assumes "vector_db_stage env tid base c1 c2 s = (Inr u, s')"
  shows "vs_calls s' = vs_calls s @
     [Recreate (v1_collection (settings env) base tid),
      Upsert (v1_collection (settings env) base tid) c1,
      Recreate (v2_collection (settings env) base tid),
      Upsert (v2_collection (settings env) base tid) c2]"
  using assms unfolding vector_db_stage_def vs_recreate_def vs_upsert_def Let_def
  by (elim pbind_Inr) (auto simp: set_progress_eq log_call_def dest!: external_frame)

text \<open>
  C8, as amended.  The two collection names are the version prefix, the cleaned base
  name, a hyphen and the task id; the analyzer searches under the same names, and the
  vector store is called with them.  The cleaned base name is the base name after one
  pass that removes a leading v1 prefix, if there is one, and then a leading v2 prefix,
  if there is one.  So a name made of one version prefix and a remainder that does not
  start with a version prefix is cleaned to that remainder, and a name without a
  version prefix is kept.
\<close>

theorem collection_names:
  "v1_collection cfg base tid =
     QDRANT_COLLECTION_V1_PREFIX cfg @ clean_base_name cfg base @ [45] @ tid \<and>
   v2_collection cfg base tid =
     QDRANT_COLLECTION_V2_PREFIX cfg @ clean_base_name cfg base @ [45] @ tid \<and>
   QDRANT_COLLECTION_V1_PREFIX cfg @ analysis_base_name cfg base tid = v1_collection cfg base tid \<and>
   QDRANT_COLLECTION_V2_PREFIX cfg @ analysis_base_name cfg base tid = v2_collection cfg base tid \<and>
   (\<forall>env c1 c2 s u s'. settings env = cfg \<longrightarrow>
      vector_db_stage env tid base c1 c2 s = (Inr u, (s' :: 'w state)) \<longrightarrow>
      vs_calls s' = vs_calls s @
        [Recreate (v1_collection cfg base tid), Upsert (v1_collection cfg base tid) c1,
         Recreate (v2_collection cfg base tid), Upsert (v2_collection cfg base tid) c2]) \<and>
   clean_base_name cfg base =
     remove_prefix (remove_prefix base (QDRANT_COLLECTION_V1_PREFIX cfg))
       (QDRANT_COLLECTION_V2_PREFIX cfg) \<and>
   (\<not> py_startswith rest (QDRANT_COLLECTION_V2_PREFIX cfg) \<longrightarrow>
      clean_base_name cfg (QDRANT_COLLECTION_V1_PREFIX cfg @ rest) = rest) \<and>
   (\<not> py_startswith (QDRANT_COLLECTION_V2_PREFIX cfg @ rest) (QDRANT_COLLECTION_V1_PREFIX cfg) \<longrightarrow>
      clean_base_name cfg (QDRANT_COLLECTION_V2_PREFIX cfg @ rest) = rest) \<and>
   (\<not> py_startswith base (QDRANT_COLLECTION_V1_PREFIX cfg) \<and>
    \<not> py_startswith base (QDRANT_COLLECTION_V2_PREFIX cfg) \<longrightarrow>
      clean_base_name cfg base = base)"
proof -
  have "\<forall>env c1 c2 s u s'. settings env = cfg \<longrightarrow>
      vector_db_stage env tid base c1 c2 s = (Inr u, (s' :: 'w state)) \<longrightarrow>
      vs_calls s' = vs_calls s @
        [Recreate (v1_collection cfg base tid), Upsert (v1_collection cfg base tid) c1,
         Recreate (v2_collection cfg base tid), Upsert (v2_collection cfg base tid) c2]"
    using vector_db_stage_calls by blast
  then show ?thesis
    by (simp add: v1_collection_def v2_collection_def analysis_base_name_def clean_base_name_def
        remove_prefix_append remove_prefix_other)
qed

theorem collection_names_witness:
  "\<not> py_startswith (ascii ''report'') (QDRANT_COLLECTION_V2_PREFIX default_settings) \<and>
   clean_base_name default_settings (ascii ''doc_v1_report'') = ascii ''report'' \<and>
   v1_collection default_settings (ascii ''doc_v1_report'') (ascii ''task_1'') =
     ascii ''doc_v1_report-task_1'' \<and>
   v2_collection default_settings (ascii ''doc_v1_report'') (ascii ''task_1'') =
     ascii ''doc_v2_report-task_1''"
proof -
  let ?base = "QDRANT_COLLECTION_V1_PREFIX default_settings @ ascii ''report''"
  have h: "\<not> py_startswith (ascii ''report'') (QDRANT_COLLECTION_V2_PREFIX default_settings)"
    by (simp add: py_startswith_def default_settings_def ascii_def)
  note t = collection_names [of default_settings ?base "ascii ''task_1''" "ascii ''report''"]
  from t h have c: "clean_base_name default_settings ?base = ascii ''report''"
    by blast
  from t have "v1_collection default_settings ?base (ascii ''task_1'') =
      QDRANT_COLLECTION_V1_PREFIX default_settings @ clean_base_name default_settings ?base @
        [45] @ ascii ''task_1''"
    and "v2_collection default_settings ?base (ascii ''task_1'') =
      QDRANT_COLLECTION_V2_PREFIX default_settings @ clean_base_name default_settings ?base @
        [45] @ ascii ''task_1''"
    by blast+
  then have "v1_collection default_settings ?base (ascii ''task_1'') =
      QDRANT_COLLECTION_V1_PREFIX default_settings @ ascii ''report'' @ [45] @ ascii ''task_1''"
    and "v2_collection default_settings ?base (ascii ''task_1'') =
      QDRANT_COLLECTION_V2_PREFIX default_settings @ ascii ''report'' @ [45] @ ascii ''task_1''"
    by (simp_all only: c)
  with h c show ?thesis
    by (simp add: default_settings_def ascii_def)
qed

text \<open>
  C8 as stated fails for a repeated prefix: only one occurrence is removed, and the
  collection name starts with the prefix twice.
\<close>

theorem collection_names_counterexample:
  "py_startswith (ascii ''doc_v1_doc_v1_report'') (QDRANT_COLLECTION_V1_PREFIX default_settings) \<and>
   clean_base_name default_settings (ascii ''doc_v1_doc_v1_report'') = ascii ''doc_v1_report'' \<and>
   v1_collection default_settings (ascii ''doc_v1_doc_v1_report'') (ascii ''task_1'') =
     ascii ''doc_v1_doc_v1_report-task_1''"
  by (simp add: v1_collection_def clean_base_name_def remove_prefix_def py_startswith_def
      default_settings_def ascii_def)

end
